theory Spec2Isabelle
  imports Main
begin

section \<open>Python strings\<close>

text \<open>
  A Python \<open>str\<close> is modelled as a \<^typ>\<open>string\<close>, one \<^typ>\<open>char\<close> per code point, so the
  model covers the texts whose code points lie below 256. On these texts the regular
  expression class \<open>\d\<close> is the ten ASCII digits, and \<open>int\<close> of a run of digits is its
  decimal value (Python integers are unbounded, hence \<^typ>\<open>int\<close>). The bound that newer
  interpreters put on the number of digits \<open>int\<close> converts, a setting of the interpreter
  and not of the program, is left out.
\<close>

definition newline :: char where
  "newline = CHR 0x0A"

definition backslash :: char where
  "backslash = CHR 0x5C"

definition startswith :: "string \<Rightarrow> string \<Rightarrow> bool" where
  "startswith s p = (take (length p) s = p)"

text \<open>\<open>s.split(d)\<close> for a one-character separator: always at least one piece.\<close>

fun split :: "string \<Rightarrow> char \<Rightarrow> string list" where
  "split [] d = [[]]"
| "split (c # cs) d =
     (if c = d then [] # split cs d
      else (case split cs d of [] \<Rightarrow> [[c]] | l # ls \<Rightarrow> (c # l) # ls))"

text \<open>\<open>d.join(ls)\<close>, used to write a patch text from its raw lines.\<close>

fun join :: "char \<Rightarrow> string list \<Rightarrow> string" where
  "join d [] = []"
| "join d [l] = l"
| "join d (l # ls) = l @ d # join d ls"

definition isdigit :: "char \<Rightarrow> bool" where
  "isdigit c = (48 \<le> (of_char c :: nat) \<and> (of_char c :: nat) \<le> 57)"

definition py_int :: "string \<Rightarrow> int" where
  "py_int ds = foldl (\<lambda>acc c. 10 * acc + (int (of_char c) - 48)) 0 ds"

text \<open>\<open>s.rfind(c)\<close> for a one-character needle: the last index of \<open>c\<close>, or \<open>-1\<close>.\<close>

definition rfind :: "string \<Rightarrow> char \<Rightarrow> int" where
  "rfind s c =
     (if c \<in> set s then int (length s) - 1 - int (length (takeWhile (\<lambda>x. x \<noteq> c) (rev s)))
      else - 1)"

section \<open>diff\_parser.py\<close>

subsection \<open>The hunk header pattern\<close>

text \<open>
  \<open>HUNK_HEADER_PATTERN.match\<close> for the pattern
  \<^verbatim>\<open>^@@ -(\d+)(?:,(\d+))? \+(\d+)(?:,(\d+))? @@\<close>.
  Every run of digits is followed in the pattern by a character that is not a digit, so
  the greedy runs never give a digit back and the match is read off from left to right.
  The result is the four groups; an optional group that did not take part is \<open>None\<close>.
\<close>

definition strip_prefix :: "string \<Rightarrow> string \<Rightarrow> string option" where
  "strip_prefix p s = (if startswith s p then Some (drop (length p) s) else None)"

text \<open>The optional group \<^verbatim>\<open>(?:,(\d+))?\<close>: the group and the rest of the line.\<close>

definition opt_count :: "string \<Rightarrow> string option \<times> string" where
  "opt_count s =
     (case s of
        [] \<Rightarrow> (None, s)
      | c # r \<Rightarrow>
          if c = CHR '','' \<and> takeWhile isdigit r \<noteq> []
          then (Some (takeWhile isdigit r), dropWhile isdigit r)
          else (None, s))"

type_synonym hunk_groups = "string \<times> string option \<times> string \<times> string option"

definition HUNK_HEADER_PATTERN_match :: "string \<Rightarrow> hunk_groups option" where
  "HUNK_HEADER_PATTERN_match raw_line =
     (case strip_prefix ''@@ -'' raw_line of
        None \<Rightarrow> None
      | Some r1 \<Rightarrow>
          let g1 = takeWhile isdigit r1; r2 = dropWhile isdigit r1 in
          if g1 = [] then None
          else
            let (g2, r3) = opt_count r2 in
            (case strip_prefix '' +'' r3 of
               None \<Rightarrow> None
             | Some r4 \<Rightarrow>
                 let g3 = takeWhile isdigit r4; r5 = dropWhile isdigit r4 in
                 if g3 = [] then None
                 else
                   let (g4, r6) = opt_count r5 in
                   if startswith r6 '' @@'' then Some (g1, g2, g3, g4) else None))"

definition group3 :: "hunk_groups \<Rightarrow> string" where
  "group3 g = fst (snd (snd g))"

subsection \<open>parse\_patch\<close>

record DiffLine =
  line_number :: int
  content :: string
  is_addition :: bool
  is_deletion :: bool
  is_context :: bool

text \<open>
  One turn of the loop over the raw lines. The loop's state is the pair of \<open>result\<close> and
  \<open>current_new_line\<close>; a \<open>continue\<close> leaves it as it is.
\<close>

definition parse_line :: "DiffLine list \<times> int \<Rightarrow> string \<Rightarrow> DiffLine list \<times> int" where
  "parse_line st raw_line =
     (let (result, current_new_line) = st in
      if startswith raw_line [backslash] then st
      else
        (case HUNK_HEADER_PATTERN_match raw_line of
           Some header_match \<Rightarrow> (result, py_int (group3 header_match))
         | None \<Rightarrow>
             (case raw_line of
                [] \<Rightarrow> st
              | prefix # rest \<Rightarrow>
                  if prefix = CHR ''+'' then
                    (result @ [\<lparr>DiffLine.line_number = current_new_line, content = rest,
                                 is_addition = True, is_deletion = False, is_context = False\<rparr>],
                     current_new_line + 1)
                  else if prefix = CHR ''-'' then st
                  else if prefix = CHR '' '' then
                    (result @ [\<lparr>DiffLine.line_number = current_new_line, content = rest,
                                 is_addition = False, is_deletion = False, is_context = True\<rparr>],
                     current_new_line + 1)
                  else st)))"

text \<open>The loop from a given state, and the function itself.\<close>

definition parse_lines :: "DiffLine list \<times> int \<Rightarrow> string list \<Rightarrow> DiffLine list \<times> int" where
  "parse_lines st raw_lines = foldl parse_line st raw_lines"

definition parse_patch :: "string \<Rightarrow> DiffLine list" where
  "parse_patch ptext =
     (if ptext = [] then [] else fst (parse_lines ([], 0) (split ptext newline)))"

definition get_valid_comment_lines :: "string \<Rightarrow> int set" where
  "get_valid_comment_lines ptext = set (map DiffLine.line_number (parse_patch ptext))"

subsection \<open>filter\_reviewable\_files\<close>

definition REVIEWABLE_EXTENSIONS :: "string set" where
  "REVIEWABLE_EXTENSIONS = {''.py'', ''.js'', ''.ts'', ''.html''}"

text \<open>
  A file is a dictionary. A field is \<open>None\<close> when the key is missing; for \<open>patch\<close> also
  when the value is Python's \<open>None\<close>, which \<open>file.get("patch")\<close> does not tell apart.
\<close>

record file_dict =
  filename :: "string option"
  patch :: "string option"
  additions :: "int option"
  deletions :: "int option"

definition get_filename :: "file_dict \<Rightarrow> string" where
  "get_filename file = (case filename file of None \<Rightarrow> [] | Some n \<Rightarrow> n)"

definition get_additions :: "file_dict \<Rightarrow> int" where
  "get_additions file = (case additions file of None \<Rightarrow> 0 | Some a \<Rightarrow> a)"

fun filter_reviewable_files :: "file_dict list \<Rightarrow> file_dict list" where
  "filter_reviewable_files [] = []"
| "filter_reviewable_files (file # files) =
     (if patch file = None then filter_reviewable_files files
      else if get_additions file = 0 then filter_reviewable_files files
      else
        let dot_index = rfind (get_filename file) (CHR ''.'') in
        if dot_index = - 1 then filter_reviewable_files files
        else if drop (nat dot_index) (get_filename file) \<notin> REVIEWABLE_EXTENSIONS
        then filter_reviewable_files files
        else file # filter_reviewable_files files)"

section \<open>ai\_reviewer.py: the data and the sanitizer\<close>

definition MAX_INPUT_LENGTH :: nat where
  "MAX_INPUT_LENGTH = 500"

definition MAX_RETRIES :: nat where
  "MAX_RETRIES = 3"

datatype severity = Error | Warning | Info

datatype category = Bug | Security | Performance | Readability

record ReviewComment =
  file_path :: string
  line_number :: int
  severity :: severity
  category :: category
  comment :: string

record ReviewResponse =
  comments :: "ReviewComment list"
  summary :: string

subsection \<open>re.sub\<close>

text \<open>
  \<open>re.sub\<close> scans the text from left to right. At each position it asks the pattern for
  a match starting there; on a match it writes the replacement and goes on after the
  match, otherwise it copies one character. A pattern is given as a function from the
  character before the position (\<open>None\<close> at the start of the text) and the text from
  the position on, to the replacement and the number of characters matched. None of the
  five patterns below matches the empty text, so the guard \<open>0 < n\<close> always holds for them.
\<close>

type_synonym pattern = "char option \<Rightarrow> string \<Rightarrow> (string \<times> nat) option"

function re_sub :: "pattern \<Rightarrow> char option \<Rightarrow> string \<Rightarrow> string" where
  "re_sub m prev [] = []"
| "re_sub m prev (c # cs) =
     (case m prev (c # cs) of
        None \<Rightarrow> c # re_sub m (Some c) cs
      | Some (repl, n) \<Rightarrow>
          if 0 < n \<and> n \<le> length (c # cs)
          then repl @ re_sub m (Some ((c # cs) ! (n - 1))) (drop n (c # cs))
          else c # re_sub m (Some c) cs)"
  by pat_completeness auto
termination
  by (relation "measure (\<lambda>(m, prev, s). length s)") auto

text \<open>
  The image pattern \<^verbatim>\<open>!\[([^\]]*)\]\([^)]*\)\<close> and the link pattern
  \<^verbatim>\<open>\[([^\]]*)\]\([^)]*\)\<close>, both replaced by group 1. A negated class also takes
  newlines; each greedy run is followed by the one character it excludes, so it never
  gives a character back.
\<close>

definition bracket_paren :: "string \<Rightarrow> (string \<times> nat) option" where
  "bracket_paren r =
     (let label = takeWhile (\<lambda>c. c \<noteq> CHR '']'') r;
          r2 = dropWhile (\<lambda>c. c \<noteq> CHR '']'') r in
      case strip_prefix '']('' r2 of
        None \<Rightarrow> None
      | Some r3 \<Rightarrow>
          let url = takeWhile (\<lambda>c. c \<noteq> CHR '')'') r3;
              r4 = dropWhile (\<lambda>c. c \<noteq> CHR '')'') r3 in
          (case r4 of
             [] \<Rightarrow> None
           | _ # _ \<Rightarrow> Some (label, length label + 2 + length url + 1)))"

definition image_pattern :: pattern where
  "image_pattern prev s =
     (case strip_prefix ''!['' s of
        None \<Rightarrow> None
      | Some r \<Rightarrow> map_option (\<lambda>(label, n). (label, 2 + n)) (bracket_paren r))"

definition link_pattern :: pattern where
  "link_pattern prev s =
     (case strip_prefix ''['' s of
        None \<Rightarrow> None
      | Some r \<Rightarrow> map_option (\<lambda>(label, n). (label, 1 + n)) (bracket_paren r))"

text \<open>
  The emphasis pattern \<^verbatim>\<open>\*{1,3}(.*?)\*{1,3}\<close>, replaced by group 1. The opening run
  takes up to three stars; the lazy group then grows over the characters of the line that
  are not stars until it meets a star, and the closing run takes up to three stars there.
  When the line has no further star, the opening run gives one star back, which the
  closing run takes with an empty group: a run of two or three stars is matched whole, a
  single star is not matched.
\<close>

definition stars :: "string \<Rightarrow> nat" where
  "stars s = length (takeWhile (\<lambda>c. c = CHR ''*'') s)"

definition emphasis_pattern :: pattern where
  "emphasis_pattern prev s =
     (let k = min 3 (stars s) in
      if k = 0 then None
      else
        let inner = takeWhile (\<lambda>c. c \<noteq> CHR ''*'' \<and> c \<noteq> newline) (drop k s);
            r = drop (length inner) (drop k s) in
        if 0 < stars r then Some (inner, k + length inner + min 3 (stars r))
        else if 2 \<le> k then Some ([], k)
        else None)"

text \<open>
  The heading pattern \<^verbatim>\<open>^#{1,6}\s+\<close> with \<open>re.MULTILINE\<close>, replaced by the empty text:
  \<open>^\<close> holds at the start of the text and after a newline. \<open>\s\<close> is the white space
  below code point 256.
\<close>

definition isspace :: "char \<Rightarrow> bool" where
  "isspace c = ((of_char c :: nat) \<in> {9, 10, 11, 12, 13, 28, 29, 30, 31, 32, 133, 160})"

definition heading_pattern :: pattern where
  "heading_pattern prev s =
     (if prev = None \<or> prev = Some newline then
        let h = length (takeWhile (\<lambda>c. c = CHR ''#'') s);
            ws = takeWhile isspace (drop h s) in
        if 1 \<le> h \<and> h \<le> 6 \<and> ws \<noteq> [] then Some ([], h + length ws) else None
      else None)"

text \<open>The backtick pattern, one to three backticks, replaced by the empty text.\<close>

definition backtick :: char where
  "backtick = CHR 0x60"

definition backtick_pattern :: pattern where
  "backtick_pattern prev s =
     (let k = length (takeWhile (\<lambda>c. c = backtick) s) in
      if k = 0 then None else Some ([], min 3 k))"

definition sanitize_input :: "string \<Rightarrow> string" where
  "sanitize_input text =
     (if text = [] then []
      else
        let sanitized = re_sub image_pattern None text;
            sanitized = re_sub emphasis_pattern None sanitized;
            sanitized = re_sub link_pattern None sanitized;
            sanitized = re_sub heading_pattern None sanitized;
            sanitized = re_sub backtick_pattern None sanitized in
        if length sanitized > MAX_INPUT_LENGTH then take MAX_INPUT_LENGTH sanitized
        else sanitized)"

section \<open>ai\_reviewer.py: the reviewer\<close>

text \<open>\<open>str(n)\<close> for a natural number: its decimal digits.\<close>

fun str_nat :: "nat \<Rightarrow> string" where
  "str_nat n =
     (if n < 10 then [''0123456789'' ! n]
      else str_nat (n div 10) @ [''0123456789'' ! (n mod 10)])"

declare str_nat.simps [simp del]

text \<open>
  The exceptions the reviewer tells apart, each with its message (\<open>str(error)\<close>);
  \<open>OtherError\<close> stands for every exception class that no handler of \<open>_call_openai\<close> names.
\<close>

datatype exn =
    AuthenticationError string
  | BadRequestError string
  | RateLimitError string
  | OtherError string

fun str_exn :: "exn \<Rightarrow> string" where
  "str_exn (AuthenticationError m) = m"
| "str_exn (BadRequestError m) = m"
| "str_exn (RateLimitError m) = m"
| "str_exn (OtherError m) = m"

text \<open>
  The model backend is outside the program. One call of \<open>chat.completions.create\<close> either
  raises or returns a response, of which the code reads \<open>choices\<close> and, of the first
  choice, \<open>message.refusal\<close>, \<open>finish_reason\<close> and \<open>message.content\<close>. The backend is a
  function of the number of calls made before and of the two prompts. Decoding the
  content (\<open>json.loads\<close>, then \<open>ReviewResponse.model_validate\<close>) is a parameter as well.
\<close>

record choice =
  message_refusal :: "string option"
  finish_reason :: string
  message_content :: "string option"

datatype api_result = Raises exn | Returns "choice list"

type_synonym backend = "nat \<Rightarrow> string \<Rightarrow> string \<Rightarrow> api_result"

type_synonym decoder = "string \<Rightarrow> exn + ReviewResponse"

text \<open>
  The effects of the reviewer, in the order made: a call of \<open>chat.completions.create\<close> or
  a \<open>time.sleep\<close> with its wait in seconds. The world is the list of the effects so far.
\<close>

datatype event = Create | Sleep nat

type_synonym world = "event list"

definition n_calls :: "world \<Rightarrow> nat" where
  "n_calls w = length (filter (\<lambda>e. e = Create) w)"

record AIReviewer =
  api_key :: string
  project_context :: string
  is_mock :: bool

definition AIReviewer_init :: "string \<Rightarrow> string \<Rightarrow> AIReviewer" where
  "AIReviewer_init key ctx =
     \<lparr>api_key = key, project_context = ctx, is_mock = (key = ''mock'' \<or> key = [])\<rparr>"

definition build_system_prompt :: "AIReviewer \<Rightarrow> string" where
  "build_system_prompt self =
     (if project_context self \<noteq> [] then
        ''You are a senior code reviewer. The following describes the project you are reviewing:\<newline>\<newline>''
        @ project_context self @ ''\<newline>\<newline>''
        @ ''Based on this project context, review the provided code diff and return structured JSON feedback. ''
        @ ''For each issue found, provide the file path, line number, severity (error/warning/info), ''
        @ ''category (bug/security/performance/readability), and a clear explanation of the issue and suggested fix.''
      else
        ''You are a senior code reviewer. Review the provided code diff and return structured JSON feedback.\<newline>\<newline>''
        @ ''Focus on:\<newline>''
        @ ''1. Logic errors and potential bugs\<newline>''
        @ ''2. Security vulnerabilities\<newline>''
        @ ''3. Performance issues\<newline>''
        @ ''4. Code readability and maintainability\<newline>\<newline>''
        @ ''For each issue found, provide the file path, line number, severity (error/warning/info), ''
        @ ''category (bug/security/performance/readability), and a clear explanation of the issue and suggested fix.'')"

definition build_user_prompt :: "string \<Rightarrow> string \<Rightarrow> string \<Rightarrow> string \<Rightarrow> string" where
  "build_user_prompt path ptext pr_title pr_description =
     (let sanitized_title = sanitize_input pr_title;
          sanitized_description = sanitize_input pr_description;
          sanitized_patch = sanitize_input ptext in
      ''Review the following code diff:\<newline>\<newline>''
      @ ''File: '' @ path @ ''\<newline>''
      @ ''PR Title: '' @ sanitized_title @ ''\<newline>''
      @ ''PR Description: '' @ sanitized_description @ ''\<newline>\<newline>''
      @ ''Diff:\<newline>'' @ [backtick, backtick, backtick] @ ''\<newline>'' @ sanitized_patch
      @ ''\<newline>'' @ [backtick, backtick, backtick] @ ''\<newline>\<newline>''
      @ ''Provide your review as structured JSON.'')"

definition mock_response :: "string \<Rightarrow> ReviewResponse" where
  "mock_response path =
     \<lparr>comments =
        [\<lparr>file_path = path, ReviewComment.line_number = 1, severity = Info,
          category = Readability, comment = ''Mock review comment for testing.''\<rparr>],
      summary = ''Mock review completed.''\<rparr>"

text \<open>
  The body of the \<open>try\<close> of one attempt: the call, then the reading of the response. An
  exception raised anywhere in it is the \<open>Inl\<close> value; \<open>choices[0]\<close> of an empty list raises
  an \<open>IndexError\<close>, whose \<open>str\<close> is the message kept here.
\<close>

definition attempt_body ::
  "backend \<Rightarrow> decoder \<Rightarrow> string \<Rightarrow> string \<Rightarrow> world \<Rightarrow> (exn + ReviewResponse) \<times> world" where
  "attempt_body create decode system_prompt user_prompt w =
     (let w' = w @ [Create] in
      case create (n_calls w) system_prompt user_prompt of
        Raises e \<Rightarrow> (Inl e, w')
      | Returns choices \<Rightarrow>
          (case choices of
             [] \<Rightarrow> (Inl (OtherError ''list index out of range''), w')
           | ch # _ \<Rightarrow>
               if message_refusal ch \<noteq> None \<and> message_refusal ch \<noteq> Some [] then
                 (Inr \<lparr>comments = [], summary = []\<rparr>, w')
               else if finish_reason ch = ''length'' then
                 (Inr \<lparr>comments = [],
                       summary = ''Error: Response truncated due to token limit.''\<rparr>, w')
               else
                 (decode (case message_content ch of None \<Rightarrow> [] | Some raw \<Rightarrow> raw), w')))"

text \<open>
  The loop \<open>for attempt in range(MAX_RETRIES)\<close> from a given \<open>attempt\<close> on, with the handlers
  of the \<open>try\<close>, and what follows the loop. The bound is a parameter, which
  \<open>call_openai\<close> sets to \<open>MAX_RETRIES\<close>.
\<close>

function call_openai_loop ::
  "nat \<Rightarrow> backend \<Rightarrow> decoder \<Rightarrow> string \<Rightarrow> string \<Rightarrow> nat \<Rightarrow> world
     \<Rightarrow> (exn + ReviewResponse) \<times> world" where
  "call_openai_loop max_retries create decode system_prompt user_prompt attempt w =
     (if attempt < max_retries then
        (case attempt_body create decode system_prompt user_prompt w of
           (Inr response, w') \<Rightarrow> (Inr response, w')
         | (Inl (AuthenticationError m), w') \<Rightarrow> (Inl (AuthenticationError m), w')
         | (Inl (BadRequestError m), w') \<Rightarrow>
             (Inr \<lparr>comments = [], summary = ''Error: Content was filtered by the API.''\<rparr>, w')
         | (Inl (RateLimitError m), w') \<Rightarrow>
             call_openai_loop max_retries create decode system_prompt user_prompt (attempt + 1)
               (if attempt < max_retries - 1
                then w' @ [Sleep (2 ^ (attempt + 1))]
                else w')
         | (Inl (OtherError m), w') \<Rightarrow> (Inl (OtherError m), w'))
      else
        (Inr \<lparr>comments = [],
              summary = ''Error: Rate limit exceeded after '' @ str_nat max_retries @ '' retries.''\<rparr>,
         w))"
  by pat_completeness auto
termination
  by (relation "measure (\<lambda>(max_retries, create, decode, sp, up, attempt, w). max_retries - attempt)")
    auto

declare call_openai_loop.simps [simp del]

definition call_openai ::
  "backend \<Rightarrow> decoder \<Rightarrow> string \<Rightarrow> string \<Rightarrow> world \<Rightarrow> (exn + ReviewResponse) \<times> world" where
  "call_openai create decode system_prompt user_prompt w =
     call_openai_loop MAX_RETRIES create decode system_prompt user_prompt 0 w"

definition review_diff ::
  "AIReviewer \<Rightarrow> backend \<Rightarrow> decoder \<Rightarrow> string \<Rightarrow> string \<Rightarrow> string \<Rightarrow> string \<Rightarrow> world
     \<Rightarrow> (exn + ReviewResponse) \<times> world" where
  "review_diff self create decode path ptext pr_title pr_description w =
     (if is_mock self then (Inr (mock_response path), w)
      else
        call_openai create decode (build_system_prompt self)
          (build_user_prompt path ptext pr_title pr_description) w)"

text \<open>
  \<open>review_files\<close> over the pairs of \<open>file_path\<close> and \<open>patch\<close>: the first exception ends the
  loop and leaves the function.
\<close>

fun review_files ::
  "AIReviewer \<Rightarrow> backend \<Rightarrow> decoder \<Rightarrow> (string \<times> string) list \<Rightarrow> string \<Rightarrow> string \<Rightarrow> world
     \<Rightarrow> (exn + ReviewComment list) \<times> world" where
  "review_files self create decode [] pr_title pr_description w = (Inr [], w)"
| "review_files self create decode ((path, ptext) # files) pr_title pr_description w =
     (case review_diff self create decode path ptext pr_title pr_description w of
        (Inl e, w') \<Rightarrow> (Inl e, w')
      | (Inr response, w') \<Rightarrow>
          (case review_files self create decode files pr_title pr_description w' of
             (Inl e, w'') \<Rightarrow> (Inl e, w'')
           | (Inr all_comments, w'') \<Rightarrow> (Inr (comments response @ all_comments), w'')))"

section \<open>review.py\<close>

text \<open>
  \<open>validate_comment_lines\<close>: the dictionary of patches is a map; \<open>file_patches.get\<close> gives
  \<open>None\<close> for a path without a patch. The two warnings the function prints are not
  part of its result and are left out.
\<close>

fun validate_comment_lines ::
  "ReviewComment list \<Rightarrow> (string \<rightharpoonup> string) \<Rightarrow> ReviewComment list" where
  "validate_comment_lines [] file_patches = []"
| "validate_comment_lines (c # cs) file_patches =
     (case file_patches (file_path c) of
        None \<Rightarrow> validate_comment_lines cs file_patches
      | Some ptext \<Rightarrow>
          if ReviewComment.line_number c \<in> get_valid_comment_lines ptext
          then c # validate_comment_lines cs file_patches
          else validate_comment_lines cs file_patches)"

fun str_severity :: "severity \<Rightarrow> string" where
  "str_severity Error = ''error''"
| "str_severity Warning = ''warning''"
| "str_severity Info = ''info''"

fun str_category :: "category \<Rightarrow> string" where
  "str_category Bug = ''bug''"
| "str_category Security = ''security''"
| "str_category Performance = ''performance''"
| "str_category Readability = ''readability''"

definition format_comment_body :: "ReviewComment \<Rightarrow> string" where
  "format_comment_body c =
     ''**['' @ str_severity (severity c) @ ''] ['' @ str_category (category c) @ '']**: ''
     @ comment c"

definition build_summary :: "ReviewComment list \<Rightarrow> string" where
  "build_summary cs =
     (let error_count = length (filter (\<lambda>c. severity c = Error) cs);
          warning_count = length (filter (\<lambda>c. severity c = Warning) cs);
          info_count = length (filter (\<lambda>c. severity c = Info) cs);
          total = length cs in
      ''CodeGuardian Review: Found '' @ str_nat total @ '' issues ''
      @ ''('' @ str_nat error_count @ '' errors, '' @ str_nat warning_count @ '' warnings, ''
      @ str_nat info_count @ '' info)'')"

subsection \<open>main\<close>

text \<open>
  The pipeline from the platform client on. The platform is outside the program: its
  reading calls are the fields of a record (\<open>get_context\<close>, \<open>get_file_content("AGENTS.md")\<close>,
  \<open>is_fork\<close>, \<open>get_files\<close>) and are taken to return; its posting calls are listed in the
  order made. \<open>post_review_error\<close> and \<open>post_error_comment_error\<close> are the exceptions
  the two posting calls raise, if any.
\<close>

record raw_file =
  raw_filename :: string
  raw_patch :: "string option"
  raw_additions :: int
  raw_deletions :: int

record platform =
  context_title :: string
  context_description :: string
  agents_md :: "string option"
  is_fork :: bool
  get_files :: "raw_file list"
  post_review_error :: "exn option"
  post_error_comment_error :: "exn option"

record platform_comment =
  path :: string
  body :: string
  line :: int

datatype platform_call =
    PostReviewComments "platform_comment list" string
  | PostErrorComment string

text \<open>How a run of \<open>main\<close> ends: it returns, it exits with a code, or an exception leaves it.\<close>

datatype outcome = Returned | SysExit int | Propagated exn

definition fetch_project_context :: "platform \<Rightarrow> string" where
  "fetch_project_context pf =
     (case agents_md pf of
        None \<Rightarrow> []
      | Some text \<Rightarrow> if text \<noteq> [] \<and> list_ex (\<lambda>c. \<not> isspace c) text then text else [])"

definition to_file_dict :: "raw_file \<Rightarrow> file_dict" where
  "to_file_dict f =
     \<lparr>filename = Some (raw_filename f), patch = raw_patch f,
      additions = Some (raw_additions f), deletions = Some (raw_deletions f)\<rparr>"

text \<open>
  \<open>f["patch"]\<close> of a reviewable file: the filter has dropped the files without a patch, so
  the first case is never met on the list \<open>main\<close> reads.
\<close>

definition patch_of :: "file_dict \<Rightarrow> string" where
  "patch_of f = (case patch f of None \<Rightarrow> [] | Some ptext \<Rightarrow> ptext)"

text \<open>The dictionary comprehension: a later file of the same name replaces an earlier one.\<close>

definition file_patches_of :: "file_dict list \<Rightarrow> (string \<rightharpoonup> string)" where
  "file_patches_of fs = map_of (rev (map (\<lambda>f. (get_filename f, patch_of f)) fs))"

text \<open>
  \<open>platform.post_error_comment(msg)\<close> after the posting calls \<open>calls\<close>, with \<open>after\<close> the way
  the run ends when the call returns.
\<close>

definition post_error_comment ::
  "platform \<Rightarrow> string \<Rightarrow> platform_call list \<Rightarrow> outcome \<Rightarrow> outcome \<times> platform_call list" where
  "post_error_comment pf msg calls after =
     (case post_error_comment_error pf of
        None \<Rightarrow> (after, calls @ [PostErrorComment msg])
      | Some e \<Rightarrow> (Propagated e, calls @ [PostErrorComment msg]))"

definition main ::
  "platform \<Rightarrow> string \<Rightarrow> backend \<Rightarrow> decoder \<Rightarrow> world \<Rightarrow> (outcome \<times> platform_call list) \<times> world" where
  "main pf key create decode w =
     (let project_context = fetch_project_context pf in
      if is_fork pf then ((SysExit 0, []), w)
      else
        let file_dicts = map to_file_dict (get_files pf);
            reviewable = filter_reviewable_files file_dicts in
        if reviewable = [] then
          (post_error_comment pf ''No reviewable files found in this PR/MR.'' [] (SysExit 0), w)
        else
          let reviewer = AIReviewer_init key project_context;
              review_inputs = map (\<lambda>f. (get_filename f, patch_of f)) reviewable in
          (case review_files reviewer create decode review_inputs
                  (context_title pf) (context_description pf) w of
             (Inl error, w') \<Rightarrow>
               (post_error_comment pf
                  (''CodeGuardian encountered an error: '' @ str_exn error) [] Returned, w')
           | (Inr ai_comments, w') \<Rightarrow>
               let file_patches = file_patches_of reviewable;
                   valid_comments = validate_comment_lines ai_comments file_patches;
                   platform_comments =
                     map (\<lambda>c. \<lparr>path = file_path c, body = format_comment_body c,
                                line = ReviewComment.line_number c\<rparr>) valid_comments;
                   summary = build_summary valid_comments in
               (case post_review_error pf of
                  None \<Rightarrow> ((Returned, [PostReviewComments platform_comments summary]), w')
                | Some error \<Rightarrow>
                    (post_error_comment pf
                       (''CodeGuardian encountered an error: '' @ str_exn error)
                       [PostReviewComments platform_comments summary] Returned, w'))))"

section \<open>Notions used to state the properties\<close>

text \<open>A raw line that \<open>parse_patch\<close> turns into a \<open>DiffLine\<close>: an addition or a context line.\<close>

definition emits :: "string \<Rightarrow> bool" where
  "emits raw_line =
     (HUNK_HEADER_PATTERN_match raw_line = None \<and>
      (case raw_line of [] \<Rightarrow> False | prefix # _ \<Rightarrow> prefix = CHR ''+'' \<or> prefix = CHR '' ''))"

text \<open>
  The extension of a path in the words of the specification: nothing when the path has
  no dot, otherwise the text from the last dot on.
\<close>

definition extension_of :: "string \<Rightarrow> string option" where
  "extension_of name =
     (if CHR ''.'' \<in> set name
      then Some (CHR ''.'' # rev (takeWhile (\<lambda>c. c \<noteq> CHR ''.'') (rev name)))
      else None)"

definition is_reviewable :: "file_dict \<Rightarrow> bool" where
  "is_reviewable f =
     (patch f \<noteq> None \<and> get_additions f \<noteq> 0 \<and>
      (case extension_of (get_filename f) of
         None \<Rightarrow> False
       | Some e \<Rightarrow> e \<in> REVIEWABLE_EXTENSIONS))"

text \<open>Lower case of the ASCII letters, to say that two texts differ by letter case only.\<close>

definition lower :: "char \<Rightarrow> char" where
  "lower c =
     (if 65 \<le> (of_char c :: nat) \<and> (of_char c :: nat) \<le> 90 then char_of ((of_char c :: nat) + 32)
      else c)"

definition endswith :: "string \<Rightarrow> string \<Rightarrow> bool" where
  "endswith s x = (length x \<le> length s \<and> drop (length s - length x) s = x)"

text \<open>
  Two conditions on the raw lines of a patch: no line before the first hunk header is an
  addition or a context line, and every hunk header has a new start of at least 1.
\<close>

definition quiet_before_first_header :: "string list \<Rightarrow> bool" where
  "quiet_before_first_header raw_lines =
     list_all (\<lambda>l. \<not> emits l) (takeWhile (\<lambda>l. HUNK_HEADER_PATTERN_match l = None) raw_lines)"

definition headers_start_positive :: "string list \<Rightarrow> bool" where
  "headers_start_positive raw_lines =
     list_all (\<lambda>l. case HUNK_HEADER_PATTERN_match l of
                      None \<Rightarrow> True
                    | Some g \<Rightarrow> 1 \<le> py_int (group3 g)) raw_lines"

text \<open>A backend that answers every call with a rate limit error, and the count of a severity.\<close>

definition always_rate_limited :: "backend \<Rightarrow> bool" where
  "always_rate_limited create =
     (\<forall>k system_prompt user_prompt. \<exists>m. create k system_prompt user_prompt = Raises (RateLimitError m))"

definition count_severity :: "severity \<Rightarrow> ReviewComment list \<Rightarrow> nat" where
  "count_severity sv cs = length (filter (\<lambda>c. severity c = sv) cs)"

text \<open>
  A run to try the orchestrator on: a platform with one changed Python file and no fork,
  a backend whose every call raises an authentication failure, and a decoder that is
  never reached.
\<close>

definition sample_platform :: platform where
  "sample_platform =
     \<lparr>context_title = ''Test'', context_description = ''Test'', agents_md = None,
      is_fork = False,
      get_files =
        [\<lparr>raw_filename = ''src/app.py'',
          raw_patch = Some ''@@ -1,3 +1,5 @@\<newline> a\<newline>+b\<newline>+c\<newline> d\<newline> e'',
          raw_additions = 2, raw_deletions = 0\<rparr>],
      post_review_error = None, post_error_comment_error = None\<rparr>"

definition denying_backend :: backend where
  "denying_backend k system_prompt user_prompt = Raises (AuthenticationError ''Invalid API key'')"

definition unused_decoder :: decoder where
  "unused_decoder raw = Inl (OtherError ''JSONDecodeError'')"

text \<open>
  A second run: two changed Python files, a backend that answers the first call with an
  empty review and raises an authentication failure at every later call, and a decoder
  that reads every content as the review with no comments.
\<close>

definition two_file_platform :: platform where
  "two_file_platform =
     \<lparr>context_title = ''Test'', context_description = ''Test'', agents_md = None,
      is_fork = False,
      get_files =
        [\<lparr>raw_filename = ''src/app.py'',
          raw_patch = Some ''@@ -1,3 +1,5 @@\<newline> a\<newline>+b\<newline>+c\<newline> d\<newline> e'',
          raw_additions = 2, raw_deletions = 0\<rparr>,
         \<lparr>raw_filename = ''src/util.py'',
          raw_patch = Some ''@@ -0,0 +1 @@\<newline>+x'',
          raw_additions = 1, raw_deletions = 0\<rparr>],
      post_review_error = None, post_error_comment_error = None\<rparr>"

definition denying_later_backend :: backend where
  "denying_later_backend k system_prompt user_prompt =
     (if k = 0 then
        Returns [\<lparr>message_refusal = None, finish_reason = ''stop'', message_content = Some ''{}''\<rparr>]
      else Raises (AuthenticationError ''Invalid API key''))"

definition empty_review_decoder :: decoder where
  "empty_review_decoder raw = Inr \<lparr>comments = [], summary = ''ok''\<rparr>"

text \<open>
  A text is plain when it has none of the characters that the five patterns of the
  sanitizer look for: exclamation mark, brackets, parentheses, star, hash and backtick.
\<close>

definition plain :: "string \<Rightarrow> bool" where
  "plain s = list_all (\<lambda>c. c \<notin> set ''![]()*#'' \<and> c \<noteq> backtick) s"

section \<open>Properties of the diff parser\<close>

subsection \<open>Splitting and the loop\<close>

lemma split_no_sep: "d \<notin> set l \<Longrightarrow> split l d = [l]"
  by (induction l) auto

lemma split_append_sep: "d \<notin> set l \<Longrightarrow> split (l @ d # r) d = l # split r d"
  by (induction l) auto

lemma split_join:
  "ls \<noteq> [] \<Longrightarrow> \<forall>l\<in>set ls. d \<notin> set l \<Longrightarrow> split (join d ls) d = ls"
proof (induction d ls rule: join.induct)
  case (1 d)
  then show ?case by simp
next
  case (2 d l)
  then show ?case by (simp add: split_no_sep)
next
  case (3 d l v va)
  then show ?case by (simp add: split_append_sep)
qed

lemma header_not_backslash:
  "HUNK_HEADER_PATTERN_match raw = Some g \<Longrightarrow> \<not> startswith raw [backslash]"
  by (cases raw)
    (auto simp: HUNK_HEADER_PATTERN_match_def strip_prefix_def startswith_def backslash_def
      split: if_splits)

lemma parse_line_header:
  "HUNK_HEADER_PATTERN_match raw = Some g \<Longrightarrow>
   parse_line (res, cur) raw = (res, py_int (group3 g))"
  using header_not_backslash[of raw g] by (simp add: parse_line_def)

lemma parse_line_emits:
  "emits raw \<Longrightarrow>
   \<exists>d. parse_line (res, cur) raw = (res @ [d], cur + 1) \<and> DiffLine.line_number d = cur"
  by (cases raw)
    (auto simp: parse_line_def emits_def startswith_def backslash_def)

lemma parse_line_silent:
  "HUNK_HEADER_PATTERN_match raw = None \<Longrightarrow> \<not> emits raw \<Longrightarrow>
   parse_line st raw = st"
  by (cases raw; cases st)
    (auto simp: parse_line_def emits_def startswith_def backslash_def)

lemma parse_lines_Cons: "parse_lines st (l # ls) = parse_lines (parse_line st l) ls"
  by (simp add: parse_lines_def)

lemma parse_lines_append: "parse_lines st (a @ b) = parse_lines (parse_lines st a) b"
  by (simp add: parse_lines_def)

lemma parse_lines_hunk:
  "\<forall>l\<in>set blines. HUNK_HEADER_PATTERN_match l = None \<Longrightarrow>
   \<exists>hunk. parse_lines (res, n) blines = (res @ hunk, n + int (length hunk)) \<and>
     map DiffLine.line_number hunk = map (\<lambda>i. n + int i) [0..<length hunk] \<and>
     length hunk = length (filter emits blines)"
proof (induction blines arbitrary: res n rule: rev_induct)
  case Nil
  then show ?case by (simp add: parse_lines_def)
next
  case (snoc l blines)
  then obtain hunk where h: "parse_lines (res, n) blines = (res @ hunk, n + int (length hunk))"
    "map DiffLine.line_number hunk = map (\<lambda>i. n + int i) [0..<length hunk]"
    "length hunk = length (filter emits blines)"
    by fastforce
  from snoc.prems have nh: "HUNK_HEADER_PATTERN_match l = None" by simp
  show ?case
  proof (cases "emits l")
    case True
    from parse_line_emits[OF True, of "res @ hunk" "n + int (length hunk)"]
    obtain d where d: "parse_line (res @ hunk, n + int (length hunk)) l =
        ((res @ hunk) @ [d], n + int (length hunk) + 1)"
      "DiffLine.line_number d = n + int (length hunk)" by blast
    have "parse_lines (res, n) (blines @ [l]) = (res @ (hunk @ [d]), n + int (length (hunk @ [d])))"
      by (simp add: parse_lines_append h(1) parse_lines_Cons d(1)) (simp add: parse_lines_def)
    moreover have "map DiffLine.line_number (hunk @ [d]) =
        map (\<lambda>i. n + int i) [0..<length (hunk @ [d])]"
      by (simp add: h(2) d(2))
    moreover have "length (hunk @ [d]) = length (filter emits (blines @ [l]))"
      by (simp add: h(3) True)
    ultimately show ?thesis by blast
  next
    case False
    have "parse_lines (res, n) (blines @ [l]) = (res @ hunk, n + int (length hunk))"
      by (simp add: parse_lines_append h(1) parse_lines_Cons parse_line_silent[OF nh False])
        (simp add: parse_lines_def)
    then show ?thesis using h(2,3) False by auto
  qed
qed


lemma parse_patch_lines: "parse_patch p = fst (parse_lines ([], 0) (split p newline))"
  by (simp add: parse_patch_def parse_lines_def parse_line_def startswith_def
      HUNK_HEADER_PATTERN_match_def strip_prefix_def)

lemma hunk_numbering:
  assumes "HUNK_HEADER_PATTERN_match hdr = Some g"
    and "\<forall>l\<in>set blines. HUNK_HEADER_PATTERN_match l = None"
    and "\<forall>l\<in>set (pre @ hdr # blines). newline \<notin> set l"
  shows "\<exists>hunk. parse_patch (join newline (pre @ hdr # blines)) =
            fst (parse_lines ([], 0) pre) @ hunk \<and>
          map DiffLine.line_number hunk = map (\<lambda>i. py_int (group3 g) + int i) [0..<length hunk] \<and>
          length hunk = length (filter emits blines)"
proof -
  obtain r c where rc: "parse_lines ([], 0) pre = (r, c)" by (cases "parse_lines ([], 0) pre")
  from parse_lines_hunk[OF assms(2), of r "py_int (group3 g)"]
  obtain hunk where h: "parse_lines (r, py_int (group3 g)) blines =
      (r @ hunk, py_int (group3 g) + int (length hunk))"
    "map DiffLine.line_number hunk = map (\<lambda>i. py_int (group3 g) + int i) [0..<length hunk]"
    "length hunk = length (filter emits blines)" by blast
  have "split (join newline (pre @ hdr # blines)) newline = pre @ hdr # blines"
    using assms(3) by (intro split_join) auto
  then have "parse_patch (join newline (pre @ hdr # blines)) =
      fst (parse_lines ([], 0) (pre @ hdr # blines))"
    by (simp add: parse_patch_lines)
  also have "\<dots> = r @ hunk"
    by (simp add: parse_lines_append rc parse_lines_Cons parse_line_header[OF assms(1)] h(1))
  finally show ?thesis using h(2,3) rc by auto
qed


text \<open>
  Claim C2. A hunk header resets the running counter to its new start, whatever the state
  before. When a patch is made of any raw lines, then a hunk header, then raw lines
  without a further header, the lines parsed from that hunk follow the ones parsed before
  it and are numbered new start, new start + 1, and so on: one number for each addition
  or context line, none for any other line. The hunk \<open>@@ -10,4 +10,6 @@\<close> with the six
  lines of the scenario parses to the numbers 10 to 15, the additions at 11, 12 and 15.
\<close>
theorem parse_patch_hunk_line_numbers:
  "(\<forall>st hdr g. HUNK_HEADER_PATTERN_match hdr = Some g \<longrightarrow>
      parse_line st hdr = (fst st, py_int (group3 g))) \<and>
   (\<forall>pre hdr g blines.
      HUNK_HEADER_PATTERN_match hdr = Some g \<and>
      (\<forall>l\<in>set blines. HUNK_HEADER_PATTERN_match l = None) \<and>
      (\<forall>l\<in>set (pre @ hdr # blines). newline \<notin> set l) \<longrightarrow>
      (\<exists>hunk. parse_patch (join newline (pre @ hdr # blines)) =
                 fst (parse_lines ([], 0) pre) @ hunk \<and>
               map DiffLine.line_number hunk =
                 map (\<lambda>i. py_int (group3 g) + int i) [0..<length hunk] \<and>
               length hunk = length (filter emits blines))) \<and>
   map DiffLine.line_number
     (parse_patch (join newline
        [''@@ -10,4 +10,6 @@'', '' context'', ''+added1'', ''+added2'', '' context'',
         '' context'', ''+added3''])) = [10, 11, 12, 13, 14, 15] \<and>
   map DiffLine.line_number
     (filter is_addition
        (parse_patch (join newline
           [''@@ -10,4 +10,6 @@'', '' context'', ''+added1'', ''+added2'', '' context'',
            '' context'', ''+added3'']))) = [11, 12, 15]"
proof (intro conjI allI impI)
  fix st :: "DiffLine list \<times> int" and hdr g
  assume "HUNK_HEADER_PATTERN_match hdr = Some g"
  then show "parse_line st hdr = (fst st, py_int (group3 g))"
    using parse_line_header[of hdr g "fst st" "snd st"] by simp
next
  fix pre hdr g blines
  assume "HUNK_HEADER_PATTERN_match hdr = Some g \<and>
      (\<forall>l\<in>set blines. HUNK_HEADER_PATTERN_match l = None) \<and>
      (\<forall>l\<in>set (pre @ hdr # blines). newline \<notin> set l)"
  then show "\<exists>hunk. parse_patch (join newline (pre @ hdr # blines)) =
                 fst (parse_lines ([], 0) pre) @ hunk \<and>
               map DiffLine.line_number hunk =
                 map (\<lambda>i. py_int (group3 g) + int i) [0..<length hunk] \<and>
               length hunk = length (filter emits blines)"
    using hunk_numbering[of hdr g blines pre] by blast
next
  show "map DiffLine.line_number
     (parse_patch (join newline
        [''@@ -10,4 +10,6 @@'', '' context'', ''+added1'', ''+added2'', '' context'',
         '' context'', ''+added3''])) = [10, 11, 12, 13, 14, 15]"
    by code_simp
next
  show "map DiffLine.line_number
     (filter is_addition
        (parse_patch (join newline
           [''@@ -10,4 +10,6 @@'', '' context'', ''+added1'', ''+added2'', '' context'',
            '' context'', ''+added3'']))) = [11, 12, 15]"
    by code_simp
qed

theorem parse_patch_hunk_line_numbers_witness:
  "HUNK_HEADER_PATTERN_match ''@@ -5,2 +7,3 @@ def f'' = Some (''5'', Some ''2'', ''7'', Some ''3'') \<and>
   parse_line ([], 3) ''@@ -5,2 +7,3 @@ def f'' = ([], 7) \<and>
   (\<exists>hunk. parse_patch (join newline
               [''+early'', ''@@ -5,2 +7,3 @@ def f'', '' a'', ''-b'', ''+c'', ''+d'']) =
             fst (parse_lines ([], 0) [''+early'']) @ hunk \<and>
           map DiffLine.line_number hunk = [7, 8, 9] \<and> length hunk = 3)"
proof -
  have h: "HUNK_HEADER_PATTERN_match ''@@ -5,2 +7,3 @@ def f'' =
      Some (''5'', Some ''2'', ''7'', Some ''3'')"
    by code_simp
  have b: "\<forall>l\<in>set ['' a'', ''-b'', ''+c'', ''+d'']. HUNK_HEADER_PATTERN_match l = None"
    by code_simp
  have n: "\<forall>l\<in>set ([''+early''] @ ''@@ -5,2 +7,3 @@ def f'' # ['' a'', ''-b'', ''+c'', ''+d'']).
      newline \<notin> set l"
    by code_simp
  have e: "length (filter emits ['' a'', ''-b'', ''+c'', ''+d'']) = 3"
    by code_simp
  have p: "py_int (group3 (''5'', Some ''2'', ''7'', Some ''3'')) = 7"
    by code_simp
  note T = parse_patch_hunk_line_numbers
  have r: "parse_line ([], 3) ''@@ -5,2 +7,3 @@ def f'' =
      (fst (([], 3) :: DiffLine list \<times> int), py_int (group3 (''5'', Some ''2'', ''7'', Some ''3'')))"
    by (rule T[THEN conjunct1, rule_format, OF h])
  have "\<exists>hunk. parse_patch (join newline
               ([''+early''] @ ''@@ -5,2 +7,3 @@ def f'' # ['' a'', ''-b'', ''+c'', ''+d''])) =
             fst (parse_lines ([], 0) [''+early'']) @ hunk \<and>
           map DiffLine.line_number hunk =
             map (\<lambda>i. py_int (group3 (''5'', Some ''2'', ''7'', Some ''3'')) + int i)
               [0..<length hunk] \<and>
           length hunk = length (filter emits ['' a'', ''-b'', ''+c'', ''+d''])"
    by (rule T[THEN conjunct2, THEN conjunct1, rule_format, OF conjI[OF h conjI[OF b n]]])
  then obtain hunk where hk: "parse_patch (join newline
               ([''+early''] @ ''@@ -5,2 +7,3 @@ def f'' # ['' a'', ''-b'', ''+c'', ''+d''])) =
             fst (parse_lines ([], 0) [''+early'']) @ hunk"
     "map DiffLine.line_number hunk =
        map (\<lambda>i. py_int (group3 (''5'', Some ''2'', ''7'', Some ''3'')) + int i) [0..<length hunk]"
     "length hunk = length (filter emits ['' a'', ''-b'', ''+c'', ''+d''])"
    by (elim exE conjE)
  have l3: "length hunk = 3"
    using hk(3) unfolding e .
  have m: "map (\<lambda>i. 7 + int i) [0..<3] = [7, 8, 9]"
    by code_simp
  have nums: "map DiffLine.line_number hunk = [7, 8, 9]"
    using hk(2) unfolding p l3 m .
  have r': "parse_line ([], 3) ''@@ -5,2 +7,3 @@ def f'' = ([], 7)"
    using r unfolding p by simp
  have hk': "parse_patch (join newline
               [''+early'', ''@@ -5,2 +7,3 @@ def f'', '' a'', ''-b'', ''+c'', ''+d'']) =
             fst (parse_lines ([], 0) [''+early'']) @ hunk"
    using hk(1) unfolding append.simps .
  show ?thesis
    by (intro conjI exI[of _ hunk]) (rule h r' hk' nums l3)+
qed

subsection \<open>Bounds on the line numbers, and the validator\<close>

lemma py_int_foldl_nonneg:
  "0 \<le> acc \<Longrightarrow> \<forall>c\<in>set ds. isdigit c \<Longrightarrow>
   0 \<le> foldl (\<lambda>acc c. 10 * acc + (int (of_char c) - 48)) acc ds"
  by (induction ds arbitrary: acc) (auto simp: isdigit_def)

lemma py_int_nonneg: "\<forall>c\<in>set ds. isdigit c \<Longrightarrow> 0 \<le> py_int ds"
  unfolding py_int_def by (rule py_int_foldl_nonneg) auto

lemma header_group3_digits:
  "HUNK_HEADER_PATTERN_match l = Some g \<Longrightarrow> \<forall>c\<in>set (group3 g). isdigit c"
  by (auto simp: HUNK_HEADER_PATTERN_match_def group3_def Let_def
      split: option.splits if_splits prod.splits dest: set_takeWhileD)

lemma header_start_nonneg:
  "HUNK_HEADER_PATTERN_match l = Some g \<Longrightarrow> 0 \<le> py_int (group3 g)"
  by (rule py_int_nonneg[OF header_group3_digits])

lemma parse_line_bound:
  assumes "b \<le> cur" and "\<forall>d\<in>set res. b \<le> DiffLine.line_number d"
    and "\<And>g. HUNK_HEADER_PATTERN_match l = Some g \<Longrightarrow> b \<le> py_int (group3 g)"
  shows "b \<le> snd (parse_line (res, cur) l) \<and>
         (\<forall>d\<in>set (fst (parse_line (res, cur) l)). b \<le> DiffLine.line_number d)"
proof (cases "HUNK_HEADER_PATTERN_match l")
  case (Some g)
  then show ?thesis using assms by (simp add: parse_line_header)
next
  case None
  show ?thesis
  proof (cases "emits l")
    case True
    from parse_line_emits[OF True, of res cur] obtain d where
      "parse_line (res, cur) l = (res @ [d], cur + 1)" "DiffLine.line_number d = cur" by blast
    then show ?thesis using assms(1,2) by auto
  next
    case False
    then show ?thesis using assms(1,2) by (simp add: parse_line_silent[OF None False])
  qed
qed

lemma parse_lines_bound:
  assumes "\<forall>l\<in>set ls. \<forall>g. HUNK_HEADER_PATTERN_match l = Some g \<longrightarrow> b \<le> py_int (group3 g)"
  shows "b \<le> cur \<Longrightarrow> \<forall>d\<in>set res. b \<le> DiffLine.line_number d \<Longrightarrow>
         b \<le> snd (parse_lines (res, cur) ls) \<and>
         (\<forall>d\<in>set (fst (parse_lines (res, cur) ls)). b \<le> DiffLine.line_number d)"
  using assms
proof (induction ls arbitrary: res cur)
  case Nil
  then show ?case by (simp add: parse_lines_def)
next
  case (Cons l ls)
  have step: "b \<le> snd (parse_line (res, cur) l) \<and>
         (\<forall>d\<in>set (fst (parse_line (res, cur) l)). b \<le> DiffLine.line_number d)"
    using Cons.prems by (intro parse_line_bound) auto
  obtain r c where rc: "parse_line (res, cur) l = (r, c)" by (cases "parse_line (res, cur) l")
  show ?case
    unfolding parse_lines_Cons rc
    using step Cons.prems(3) unfolding rc by (intro Cons.IH) auto
qed

lemma parse_patch_nonneg: "\<forall>d\<in>set (parse_patch p). 0 \<le> DiffLine.line_number d"
  unfolding parse_patch_lines
  using parse_lines_bound[of "split p newline" 0 0 "[]"] header_start_nonneg by auto

lemma parse_lines_quiet:
  "\<forall>l\<in>set ls. HUNK_HEADER_PATTERN_match l = None \<and> \<not> emits l \<Longrightarrow> parse_lines st ls = st"
  by (induction ls arbitrary: st) (simp_all add: parse_lines_def parse_line_silent)

lemma parse_patch_positive:
  assumes q: "quiet_before_first_header (split p newline)"
    and h: "headers_start_positive (split p newline)"
  shows "\<forall>d\<in>set (parse_patch p). 1 \<le> DiffLine.line_number d"
proof -
  define ls where "ls = split p newline"
  define pre where "pre = takeWhile (\<lambda>l. HUNK_HEADER_PATTERN_match l = None) ls"
  define rest where "rest = dropWhile (\<lambda>l. HUNK_HEADER_PATTERN_match l = None) ls"
  have ls: "ls = pre @ rest" by (simp add: pre_def rest_def)
  have pre: "parse_lines ([], 0) pre = ([], 0)"
    using q unfolding quiet_before_first_header_def ls_def[symmetric] pre_def[symmetric]
    by (intro parse_lines_quiet) (auto simp: list_all_iff pre_def dest: set_takeWhileD)
  have hp: "\<forall>l\<in>set ls. \<forall>g. HUNK_HEADER_PATTERN_match l = Some g \<longrightarrow> 1 \<le> py_int (group3 g)"
    using h unfolding headers_start_positive_def ls_def[symmetric]
    by (auto simp: list_all_iff split: option.splits)
  show ?thesis
  proof (cases rest)
    case Nil
    then show ?thesis
      unfolding parse_patch_lines ls_def[symmetric] ls by (simp add: pre)
  next
    case (Cons hdr blines)
    then have "HUNK_HEADER_PATTERN_match hdr \<noteq> None"
      using hd_dropWhile[of "\<lambda>l. HUNK_HEADER_PATTERN_match l = None" ls]
      unfolding rest_def by (metis list.distinct(1) list.sel(1))
    then obtain g where g: "HUNK_HEADER_PATTERN_match hdr = Some g" by auto
    have "hdr \<in> set ls" using ls Cons by simp
    then have pos: "1 \<le> py_int (group3 g)" using hp g by blast
    have sub: "\<forall>l\<in>set blines. \<forall>g. HUNK_HEADER_PATTERN_match l = Some g \<longrightarrow> 1 \<le> py_int (group3 g)"
    proof
      fix l assume "l \<in> set blines"
      then have "l \<in> set ls" unfolding ls Cons by simp
      then show "\<forall>g. HUNK_HEADER_PATTERN_match l = Some g \<longrightarrow> 1 \<le> py_int (group3 g)"
        using hp by blast
    qed
    have "parse_lines ([], 0) ls = parse_lines ([], py_int (group3 g)) blines"
      unfolding ls Cons parse_lines_append pre parse_lines_Cons parse_line_header[OF g] ..
    then show ?thesis
      unfolding parse_patch_lines ls_def[symmetric]
      using parse_lines_bound[OF sub pos, of "[]"] by simp
  qed
qed


text \<open>
  Claim C6, as the code has it. The claim fails on a patch whose first raw line is an
  addition: the counter starts at 0 and no header has reset it. What holds for every
  patch text is that no line number is negative; and when no addition or context line
  stands before the first hunk header and every hunk header has a new start of at least
  1, every line number is at least 1.
\<close>

theorem parse_patch_line_numbers_bound:
  "(\<forall>d\<in>set (parse_patch p). 0 \<le> DiffLine.line_number d) \<and>
   (quiet_before_first_header (split p newline) \<and> headers_start_positive (split p newline) \<longrightarrow>
      (\<forall>d\<in>set (parse_patch p). 1 \<le> DiffLine.line_number d))"
  using parse_patch_nonneg[of p] parse_patch_positive[of p] by blast

theorem parse_patch_line_numbers_bound_witness:
  "quiet_before_first_header (split ''@@ -1,3 +1,5 @@\<newline> a\<newline>+b\<newline>+c\<newline> d\<newline> e'' newline) \<and>
   headers_start_positive (split ''@@ -1,3 +1,5 @@\<newline> a\<newline>+b\<newline>+c\<newline> d\<newline> e'' newline) \<and>
   list_all (\<lambda>d. 1 \<le> DiffLine.line_number d)
     (parse_patch ''@@ -1,3 +1,5 @@\<newline> a\<newline>+b\<newline>+c\<newline> d\<newline> e'') \<and>
   parse_patch ''@@ -1,3 +1,5 @@\<newline> a\<newline>+b\<newline>+c\<newline> d\<newline> e'' \<noteq> []"
proof -
  have q: "quiet_before_first_header
      (split ''@@ -1,3 +1,5 @@\<newline> a\<newline>+b\<newline>+c\<newline> d\<newline> e'' newline)"
    by code_simp
  have h: "headers_start_positive
      (split ''@@ -1,3 +1,5 @@\<newline> a\<newline>+b\<newline>+c\<newline> d\<newline> e'' newline)"
    by code_simp
  have n: "parse_patch ''@@ -1,3 +1,5 @@\<newline> a\<newline>+b\<newline>+c\<newline> d\<newline> e'' \<noteq> []"
    by code_simp
  have "\<forall>d\<in>set (parse_patch ''@@ -1,3 +1,5 @@\<newline> a\<newline>+b\<newline>+c\<newline> d\<newline> e'').
      1 \<le> DiffLine.line_number d"
    by (rule parse_patch_line_numbers_bound[THEN conjunct2, THEN mp, OF conjI[OF q h]])
  then have "list_all (\<lambda>d. 1 \<le> DiffLine.line_number d)
     (parse_patch ''@@ -1,3 +1,5 @@\<newline> a\<newline>+b\<newline>+c\<newline> d\<newline> e'')"
    unfolding list_all_iff .
  with q h n show ?thesis by (intro conjI)
qed

theorem parse_patch_line_number_zero:
  "\<not> (\<forall>d\<in>set (parse_patch ''+x''). 1 \<le> DiffLine.line_number d)"
  by code_simp

text \<open>
  Claim C1. \<open>validate_comment_lines\<close> returns the comments of its input, in their order,
  for which the mapping has a patch under the comment's \<open>file_path\<close> and the comment's
  \<open>line_number\<close> is among the line numbers of the \<open>DiffLine\<close>s parsed from that patch. A
  comment whose path has no patch is left out, and the function returns a list in
  every case.
\<close>

theorem validate_comment_lines_sound:
  "validate_comment_lines cs fp =
     filter (\<lambda>c. \<exists>p. fp (file_path c) = Some p \<and>
                    ReviewComment.line_number c \<in> DiffLine.line_number ` set (parse_patch p)) cs"
  by (induction cs) (auto simp: get_valid_comment_lines_def split: option.splits)

theorem validate_comment_lines_sound_witness:
  "validate_comment_lines
     [\<lparr>file_path = ''src/app.py'', ReviewComment.line_number = 2, severity = Error,
       category = Bug, comment = ''Valid''\<rparr>,
      \<lparr>file_path = ''src/app.py'', ReviewComment.line_number = 999, severity = Info,
       category = Readability, comment = ''Hallucinated''\<rparr>,
      \<lparr>file_path = ''README.md'', ReviewComment.line_number = 1, severity = Info,
       category = Readability, comment = ''No patch''\<rparr>,
      \<lparr>file_path = ''src/app.py'', ReviewComment.line_number = 5, severity = Warning,
       category = Security, comment = ''Also valid''\<rparr>]
     [''src/app.py'' \<mapsto> ''@@ -1,3 +1,5 @@\<newline> a\<newline>+b\<newline>+c\<newline> d\<newline> e'']
   = [\<lparr>file_path = ''src/app.py'', ReviewComment.line_number = 2, severity = Error,
       category = Bug, comment = ''Valid''\<rparr>,
      \<lparr>file_path = ''src/app.py'', ReviewComment.line_number = 5, severity = Warning,
       category = Security, comment = ''Also valid''\<rparr>]"
proof -
  have m: "map DiffLine.line_number
      (parse_patch ''@@ -1,3 +1,5 @@\<newline> a\<newline>+b\<newline>+c\<newline> d\<newline> e'') = [1, 2, 3, 4, 5]"
    by code_simp
  have i: "DiffLine.line_number `
      set (parse_patch ''@@ -1,3 +1,5 @@\<newline> a\<newline>+b\<newline>+c\<newline> d\<newline> e'') = {1, 2, 3, 4, 5}"
    unfolding set_map[symmetric] m by simp
  show ?thesis
    unfolding validate_comment_lines_sound by (simp add: i)
qed

section \<open>Properties of the reviewable-file filter\<close>

lemma rfind_no_dot: "c \<notin> set s \<Longrightarrow> rfind s c = - 1"
  by (simp add: rfind_def)

lemma rfind_last:
  assumes "c \<notin> set b"
  shows "rfind (a @ c # b) c = int (length a)"
proof -
  have "takeWhile (\<lambda>x. x \<noteq> c) (rev (a @ c # b)) = rev b"
    using assms by (auto simp: takeWhile_tail)
  then show ?thesis by (simp add: rfind_def)
qed

lemma extension_of_last:
  assumes "CHR ''.'' \<notin> set b"
  shows "extension_of (a @ CHR ''.'' # b) = Some (CHR ''.'' # b)"
proof -
  have "takeWhile (\<lambda>x. x \<noteq> CHR ''.'') (rev (a @ CHR ''.'' # b)) = rev b"
    using assms by (auto simp: takeWhile_tail)
  then show ?thesis by (simp add: extension_of_def)
qed

lemma extension_by_rfind:
  "extension_of name =
     (if rfind name (CHR ''.'') = - 1 then None
      else Some (drop (nat (rfind name (CHR ''.''))) name))"
proof (cases "CHR ''.'' \<in> set name")
  case False
  then show ?thesis by (simp add: rfind_no_dot extension_of_def)
next
  case True
  then obtain a b where ab: "name = a @ CHR ''.'' # b" "CHR ''.'' \<notin> set b"
    using split_list_last by fastforce
  show ?thesis
    unfolding ab(1) rfind_last[OF ab(2)] extension_of_last[OF ab(2)] by simp
qed

lemma filter_reviewable_files_eq: "filter_reviewable_files fs = filter is_reviewable fs"
  by (induction fs) (auto simp: is_reviewable_def extension_by_rfind Let_def)

text \<open>
  Claim C7. \<open>filter_reviewable_files\<close> returns, in their order, the files that have a
  patch, whose additions are not 0 and whose path has an extension in the allow-list; it
  leaves out every other file. Of a file \<open>main.py\<close> with a patch and one addition, a file
  \<open>logo.png\<close> without a patch and a file \<open>removed.py\<close> with no addition, it returns the
  first only.
\<close>

theorem filter_reviewable_files_correct:
  "filter_reviewable_files fs = filter is_reviewable fs \<and>
   (\<forall>m l r. filename m = Some ''main.py'' \<and> patch m \<noteq> None \<and> additions m = Some 1 \<and>
            filename l = Some ''logo.png'' \<and> patch l = None \<and>
            filename r = Some ''removed.py'' \<and> additions r = Some 0 \<longrightarrow>
            filter_reviewable_files [m, l, r] = [m])"
proof (intro conjI allI impI)
  show "filter_reviewable_files fs = filter is_reviewable fs"
    by (rule filter_reviewable_files_eq)
next
  fix m l r :: file_dict
  assume a: "filename m = Some ''main.py'' \<and> patch m \<noteq> None \<and> additions m = Some 1 \<and>
            filename l = Some ''logo.png'' \<and> patch l = None \<and>
            filename r = Some ''removed.py'' \<and> additions r = Some 0"
  have e: "extension_of ''main.py'' = Some ''.py''"
    by code_simp
  have "is_reviewable m" "\<not> is_reviewable l" "\<not> is_reviewable r"
    using a by (simp_all add: is_reviewable_def get_filename_def get_additions_def e
        REVIEWABLE_EXTENSIONS_def)
  then show "filter_reviewable_files [m, l, r] = [m]"
    by (simp add: filter_reviewable_files_eq)
qed


theorem filter_reviewable_files_correct_witness:
  "filter_reviewable_files
     [\<lparr>filename = Some ''main.py'', patch = Some ''@@ -0,0 +1 @@\<newline>+x'', additions = Some 1,
       deletions = Some 0\<rparr>,
      \<lparr>filename = Some ''logo.png'', patch = None, additions = Some 0, deletions = Some 0\<rparr>,
      \<lparr>filename = Some ''removed.py'', patch = Some ''@@ -1 +0,0 @@\<newline>-x'', additions = Some 0,
       deletions = Some 1\<rparr>]
   = [\<lparr>filename = Some ''main.py'', patch = Some ''@@ -0,0 +1 @@\<newline>+x'', additions = Some 1,
       deletions = Some 0\<rparr>]"
  by (rule filter_reviewable_files_correct[THEN conjunct2, rule_format]) simp

text \<open>
  Claim C10. The allow-list is the four extensions \<open>.py\<close>, \<open>.js\<close>, \<open>.ts\<close> and \<open>.html\<close>, and
  an extension is compared with it as it is written: a file whose extension is not in the
  list is left out also when its lower-case form is in the list, as \<open>MAIN.PY\<close> is, with
  any patch and any additions. A file named \<open>.py\<close> with a patch and positive additions
  is kept, and so is a file whose whole name is any of the four extensions.
\<close>

theorem reviewable_extension_case_sensitive:
  "REVIEWABLE_EXTENSIONS = {''.py'', ''.js'', ''.ts'', ''.html''} \<and>
   (\<forall>f fs e. extension_of (get_filename f) = Some e \<and> e \<notin> REVIEWABLE_EXTENSIONS \<and>
             map lower e \<in> REVIEWABLE_EXTENSIONS \<longrightarrow>
             f \<notin> set (filter_reviewable_files fs)) \<and>
   (\<forall>f. filename f = Some ''MAIN.PY'' \<longrightarrow> filter_reviewable_files [f] = []) \<and>
   (\<forall>f a. filename f = Some ''.py'' \<and> patch f \<noteq> None \<and> additions f = Some a \<and> 0 < a \<longrightarrow>
          filter_reviewable_files [f] = [f]) \<and>
   (\<forall>f a e. e \<in> REVIEWABLE_EXTENSIONS \<and> filename f = Some e \<and> patch f \<noteq> None \<and>
            additions f = Some a \<and> 0 < a \<longrightarrow>
            filter_reviewable_files [f] = [f])"
proof (intro conjI allI impI)
  show "REVIEWABLE_EXTENSIONS = {''.py'', ''.js'', ''.ts'', ''.html''}"
    by (rule REVIEWABLE_EXTENSIONS_def)
next
  fix f :: file_dict and fs e
  assume "extension_of (get_filename f) = Some e \<and> e \<notin> REVIEWABLE_EXTENSIONS \<and>
             map lower e \<in> REVIEWABLE_EXTENSIONS"
  then have "\<not> is_reviewable f" by (simp add: is_reviewable_def)
  then show "f \<notin> set (filter_reviewable_files fs)"
    by (simp add: filter_reviewable_files_eq)
next
  fix f :: file_dict
  assume a: "filename f = Some ''MAIN.PY''"
  have "extension_of ''MAIN.PY'' = Some ''.PY''" by code_simp
  then have "\<not> is_reviewable f"
    using a by (simp add: is_reviewable_def get_filename_def REVIEWABLE_EXTENSIONS_def)
  then show "filter_reviewable_files [f] = []"
    by (simp add: filter_reviewable_files_eq)
next
  fix f :: file_dict and a
  assume a: "filename f = Some ''.py'' \<and> patch f \<noteq> None \<and> additions f = Some a \<and> 0 < a"
  have "extension_of ''.py'' = Some ''.py''" by code_simp
  then have "is_reviewable f"
    using a by (simp add: is_reviewable_def get_filename_def get_additions_def
        REVIEWABLE_EXTENSIONS_def)
  then show "filter_reviewable_files [f] = [f]"
    by (simp add: filter_reviewable_files_eq)
next
  fix f :: file_dict and a e
  assume a: "e \<in> REVIEWABLE_EXTENSIONS \<and> filename f = Some e \<and> patch f \<noteq> None \<and>
            additions f = Some a \<and> 0 < a"
  have "extension_of ''.py'' = Some ''.py''" "extension_of ''.js'' = Some ''.js''"
    "extension_of ''.ts'' = Some ''.ts''" "extension_of ''.html'' = Some ''.html''"
    by code_simp+
  then have "extension_of e = Some e"
    using a unfolding REVIEWABLE_EXTENSIONS_def by blast
  then have "is_reviewable f"
    using a by (simp add: is_reviewable_def get_filename_def get_additions_def)
  then show "filter_reviewable_files [f] = [f]"
    by (simp add: filter_reviewable_files_eq)
qed

theorem reviewable_extension_case_sensitive_witness:
  "extension_of ''MAIN.PY'' = Some ''.PY'' \<and> ''.PY'' \<notin> REVIEWABLE_EXTENSIONS \<and>
   map lower ''.PY'' \<in> REVIEWABLE_EXTENSIONS \<and>
   \<lparr>filename = Some ''MAIN.PY'', patch = Some ''@@ -0,0 +1 @@\<newline>+x'', additions = Some 1,
     deletions = Some 0\<rparr>
     \<notin> set (filter_reviewable_files
         [\<lparr>filename = Some ''MAIN.PY'', patch = Some ''@@ -0,0 +1 @@\<newline>+x'', additions = Some 1,
           deletions = Some 0\<rparr>,
          \<lparr>filename = Some ''.py'', patch = Some ''@@ -0,0 +1 @@\<newline>+x'', additions = Some 1,
           deletions = Some 0\<rparr>]) \<and>
   filter_reviewable_files
     [\<lparr>filename = Some ''MAIN.PY'', patch = Some ''@@ -0,0 +1 @@\<newline>+x'', additions = Some 1,
       deletions = Some 0\<rparr>] = [] \<and>
   filter_reviewable_files
     [\<lparr>filename = Some ''.py'', patch = Some ''@@ -0,0 +1 @@\<newline>+x'', additions = Some 1,
       deletions = Some 0\<rparr>]
   = [\<lparr>filename = Some ''.py'', patch = Some ''@@ -0,0 +1 @@\<newline>+x'', additions = Some 1,
       deletions = Some 0\<rparr>]"
proof -
  note T = reviewable_extension_case_sensitive
  have e: "extension_of ''MAIN.PY'' = Some ''.PY''" by code_simp
  have n: "''.PY'' \<notin> REVIEWABLE_EXTENSIONS" by (simp add: REVIEWABLE_EXTENSIONS_def)
  have "map lower ''.PY'' = ''.py''" by code_simp
  then have l: "map lower ''.PY'' \<in> REVIEWABLE_EXTENSIONS"
    by (simp add: REVIEWABLE_EXTENSIONS_def)
  have g: "extension_of (get_filename \<lparr>filename = Some ''MAIN.PY'',
      patch = Some ''@@ -0,0 +1 @@\<newline>+x'', additions = Some 1, deletions = Some 0\<rparr>) = Some ''.PY''"
    using e by (simp add: get_filename_def)
  show ?thesis
    apply (intro conjI)
         apply (rule e)
        apply (rule n)
       apply (rule l)
      apply (rule T[THEN conjunct2, THEN conjunct1, rule_format, OF conjI[OF g conjI[OF n l]]])
     apply (rule T[THEN conjunct2, THEN conjunct2, THEN conjunct1, rule_format], simp)
    apply (rule T[THEN conjunct2, THEN conjunct2, THEN conjunct2, THEN conjunct1, rule_format,
          of _ 1], simp)
    done
qed

section \<open>Properties of the summary\<close>

lemma severity_counts_total:
  "count_severity Error cs + count_severity Warning cs + count_severity Info cs = length cs"
proof (induction cs)
  case Nil
  then show ?case by (simp add: count_severity_def)
next
  case (Cons c cs)
  then show ?case by (cases "severity c") (simp_all add: count_severity_def)
qed

lemma build_summary_counts:
  "build_summary cs =
     ''CodeGuardian Review: Found '' @ str_nat (length cs) @ '' issues (''
     @ str_nat (count_severity Error cs) @ '' errors, ''
     @ str_nat (count_severity Warning cs) @ '' warnings, ''
     @ str_nat (count_severity Info cs) @ '' info)''"
  by (simp add: build_summary_def count_severity_def)

text \<open>
  Claim C4. The docstring of \<open>build_summary\<close> gives, as the claim does, the summary of
  two errors and one warning as ending \<open>Found 3 issues (2 errors, 1 warning, 0 info)\<close>.
  The code fills one template whose words do not change with the counts: for this list
  it returns \<open>CodeGuardian Review: Found 3 issues (2 errors, 1 warnings, 0 info)\<close>, which
  does not end with the text of the docstring and of the claim.
\<close>

theorem build_summary_two_errors_one_warning:
  "build_summary
     [\<lparr>file_path = ''a.py'', ReviewComment.line_number = 1, severity = Error, category = Bug,
       comment = ''err1''\<rparr>,
      \<lparr>file_path = ''a.py'', ReviewComment.line_number = 2, severity = Error, category = Bug,
       comment = ''err2''\<rparr>,
      \<lparr>file_path = ''b.py'', ReviewComment.line_number = 3, severity = Warning,
       category = Readability, comment = ''warn1''\<rparr>]
   = ''CodeGuardian Review: Found 3 issues (2 errors, 1 warnings, 0 info)'' \<and>
   \<not> endswith
     (build_summary
        [\<lparr>file_path = ''a.py'', ReviewComment.line_number = 1, severity = Error, category = Bug,
          comment = ''err1''\<rparr>,
         \<lparr>file_path = ''a.py'', ReviewComment.line_number = 2, severity = Error, category = Bug,
          comment = ''err2''\<rparr>,
         \<lparr>file_path = ''b.py'', ReviewComment.line_number = 3, severity = Warning,
          category = Readability, comment = ''warn1''\<rparr>])
     ''Found 3 issues (2 errors, 1 warning, 0 info)''"
  by (simp add: build_summary_counts count_severity_def str_nat.simps endswith_def)

section \<open>Properties of the retry loop\<close>

lemma attempt_body_raises:
  "create (n_calls w) sp up = Raises e \<Longrightarrow>
   attempt_body create decode sp up w = (Inl e, w @ [Create])"
  by (simp add: attempt_body_def)

text \<open>The effects of the attempts \<open>a\<close> to \<open>M - 1\<close> when each of them is rate limited.\<close>

lemma rate_limited_from:
  assumes "always_rate_limited create"
  shows "attempt \<le> M \<Longrightarrow>
    call_openai_loop M create decode sp up attempt w =
      (Inr \<lparr>comments = [],
            summary = ''Error: Rate limit exceeded after '' @ str_nat M @ '' retries.''\<rparr>,
       w @ concat (map (\<lambda>k. if k < M - 1 then [Create, Sleep (2 ^ (k + 1))] else [Create])
                    [attempt..<M]))"
proof (induction "M - attempt" arbitrary: attempt w)
  case 0
  then show ?case by (subst call_openai_loop.simps) simp
next
  case (Suc n)
  then have lt: "attempt < M" by simp
  obtain m where m: "create (n_calls w) sp up = Raises (RateLimitError m)"
    using assms unfolding always_rate_limited_def by blast
  have ih: "call_openai_loop M create decode sp up (Suc attempt) w' =
      (Inr \<lparr>comments = [],
            summary = ''Error: Rate limit exceeded after '' @ str_nat M @ '' retries.''\<rparr>,
       w' @ concat (map (\<lambda>k. if k < M - 1 then [Create, Sleep (2 ^ (k + 1))] else [Create])
                    [Suc attempt..<M]))" for w'
    using Suc.hyps(1)[of "Suc attempt" w'] Suc.hyps(2) lt by simp
  have u: "[attempt..<M] = attempt # [Suc attempt..<M]"
    using lt by (simp add: upt_conv_Cons)
  show ?case
    by (subst call_openai_loop.simps) (simp add: lt attempt_body_raises[where create=create and w=w and sp=sp and up=up, OF m] ih u)
qed

text \<open>
  Claim C3. When every call of the model raises a rate limit error, the loop with the
  bound \<open>M\<close> makes exactly \<open>M\<close> calls and sleeps after each call but the last, so
  \<open>M - 1\<close> times between the calls; the wait after attempt number \<open>k\<close>, counted from 1
  as the log line of the code counts, is \<open>2 ^ k\<close> seconds. It then returns, without
  raising, the response with no comments whose summary names \<open>M\<close>. For \<open>MAX_RETRIES\<close>,
  which is 3, the effects are a call, a sleep of 2, a call, a sleep of 4 and a call, and
  \<open>review_diff\<close> of a reviewer that is not in mock mode returns the same.
\<close>
theorem rate_limit_retry_bound:
  "always_rate_limited create \<longrightarrow>
     call_openai_loop M create decode sp up 0 w =
       (Inr \<lparr>comments = [],
             summary = ''Error: Rate limit exceeded after '' @ str_nat M @ '' retries.''\<rparr>,
        w @ concat (map (\<lambda>k. if k < M - 1 then [Create, Sleep (2 ^ (k + 1))] else [Create])
                     [0..<M])) \<and>
     MAX_RETRIES = 3 \<and>
     call_openai create decode sp up w =
       (Inr \<lparr>comments = [], summary = ''Error: Rate limit exceeded after 3 retries.''\<rparr>,
        w @ [Create, Sleep (2 ^ 1), Create, Sleep (2 ^ 2), Create]) \<and>
     (\<not> is_mock self \<longrightarrow>
        review_diff self create decode fp ptext title description w =
          (Inr \<lparr>comments = [], summary = ''Error: Rate limit exceeded after 3 retries.''\<rparr>,
           w @ [Create, Sleep (2 ^ 1), Create, Sleep (2 ^ 2), Create]))"
proof (intro impI conjI)
  assume a: "always_rate_limited create"
  show "call_openai_loop M create decode sp up 0 w =
       (Inr \<lparr>comments = [],
             summary = ''Error: Rate limit exceeded after '' @ str_nat M @ '' retries.''\<rparr>,
        w @ concat (map (\<lambda>k. if k < M - 1 then [Create, Sleep (2 ^ (k + 1))] else [Create])
                     [0..<M]))"
    by (rule rate_limited_from[OF a]) simp
  show "MAX_RETRIES = 3" by (rule MAX_RETRIES_def)
  have u: "[0..<3] = [0, 1, 2]" by (simp add: upt_conv_Cons)
  have s: "str_nat 3 = ''3''" by (simp add: str_nat.simps)
  show c: "call_openai create decode sp up w =
       (Inr \<lparr>comments = [], summary = ''Error: Rate limit exceeded after 3 retries.''\<rparr>,
        w @ [Create, Sleep (2 ^ 1), Create, Sleep (2 ^ 2), Create])" for sp up
    unfolding call_openai_def MAX_RETRIES_def
    by (subst rate_limited_from[OF a]) (simp_all add: u s)
  assume "\<not> is_mock self"
  then show "review_diff self create decode fp ptext title description w =
          (Inr \<lparr>comments = [], summary = ''Error: Rate limit exceeded after 3 retries.''\<rparr>,
           w @ [Create, Sleep (2 ^ 1), Create, Sleep (2 ^ 2), Create])"
    by (simp add: review_diff_def c)
qed

theorem rate_limit_retry_bound_witness:
  "always_rate_limited (\<lambda>k sp up. Raises (RateLimitError ''Rate limit exceeded'')) \<and>
   call_openai (\<lambda>k sp up. Raises (RateLimitError ''Rate limit exceeded''))
       (\<lambda>raw. Inl (OtherError ''JSONDecodeError'')) ''system'' ''user'' [] =
     (Inr \<lparr>comments = [], summary = ''Error: Rate limit exceeded after 3 retries.''\<rparr>,
      [Create, Sleep 2, Create, Sleep 4, Create])"
proof -
  have a: "always_rate_limited (\<lambda>k sp up. Raises (RateLimitError ''Rate limit exceeded''))"
    by (simp add: always_rate_limited_def)
  from rate_limit_retry_bound[THEN mp, OF a, THEN conjunct2, THEN conjunct2, THEN conjunct1,
      of "\<lambda>raw. Inl (OtherError ''JSONDecodeError'')" "''system''" "''user''" "[]"]
  show ?thesis using a by simp
qed

lemma call_openai_auth:
  assumes "create (n_calls w) sp up = Raises (AuthenticationError m)"
  shows "call_openai create decode sp up w = (Inl (AuthenticationError m), w @ [Create])"
  unfolding call_openai_def
  by (subst call_openai_loop.simps)
    (simp add: MAX_RETRIES_def
      attempt_body_raises[where create=create and w=w and sp=sp and up=up, OF assms])

text \<open>
  Claim C8. When the call of the first attempt raises an authentication failure,
  \<open>_call_openai\<close> ends with that failure after this one call: the effects are the effects
  before and one call, with no sleep. \<open>review_diff\<close> of a reviewer that is not in mock
  mode passes the failure on unchanged.
\<close>

theorem auth_failure_short_circuit:
  "(create (n_calls w) sp up = Raises (AuthenticationError m) \<longrightarrow>
      call_openai create decode sp up w = (Inl (AuthenticationError m), w @ [Create])) \<and>
   (\<not> is_mock self \<and>
    create (n_calls w) (build_system_prompt self)
      (build_user_prompt fp ptext title description) = Raises (AuthenticationError m) \<longrightarrow>
      review_diff self create decode fp ptext title description w =
        (Inl (AuthenticationError m), w @ [Create]))"
  by (simp add: review_diff_def call_openai_auth)

theorem auth_failure_short_circuit_witness:
  "\<not> is_mock (AIReviewer_init ''invalid-key'' []) \<and>
   review_diff (AIReviewer_init ''invalid-key'' [])
       (\<lambda>k sp up. if k = 0 then Raises (AuthenticationError ''Invalid API key'') else Returns [])
       (\<lambda>raw. Inl (OtherError ''JSONDecodeError'')) ''test.py'' ''diff'' ''Test'' ''Test'' [] =
     (Inl (AuthenticationError ''Invalid API key''), [Create])"
proof -
  have n: "\<not> is_mock (AIReviewer_init ''invalid-key'' [])"
    by (simp add: AIReviewer_init_def)
  note T = auth_failure_short_circuit[
      where create = "\<lambda>k sp up. if k = 0 then Raises (AuthenticationError ''Invalid API key'')
                       else Returns []"
        and w = "[]" and self = "AIReviewer_init ''invalid-key'' []" and m = "''Invalid API key''"
        and fp = "''test.py''" and ptext = "''diff''" and title = "''Test''"
        and description = "''Test''"
        and decode = "\<lambda>raw. Inl (OtherError ''JSONDecodeError'')",
      THEN conjunct2]
  from T n show ?thesis by (simp add: n_calls_def)
qed

section \<open>Properties of the orchestrator\<close>

lemma review_files_auth:
  assumes "inputs \<noteq> []" and "\<not> is_mock self"
    and "\<forall>sp up. create (n_calls w) sp up = Raises (AuthenticationError m)"
  shows "review_files self create decode inputs title description w =
           (Inl (AuthenticationError m), w @ [Create])"
proof -
  obtain fp ptext rest where i: "inputs = (fp, ptext) # rest"
    using assms(1) by (cases inputs) auto
  show ?thesis
    unfolding i using assms(2,3) by (simp add: review_diff_def call_openai_auth)
qed

lemma main_review_error:
  assumes "\<not> is_fork pf"
    and "filter_reviewable_files (map to_file_dict (get_files pf)) \<noteq> []"
    and "review_files (AIReviewer_init key (fetch_project_context pf)) create decode
           (map (\<lambda>f. (get_filename f, patch_of f))
              (filter_reviewable_files (map to_file_dict (get_files pf))))
           (context_title pf) (context_description pf) w = (Inl e, w')"
  shows "main pf key create decode w =
           (post_error_comment pf (''CodeGuardian encountered an error: '' @ str_exn e) []
              Returned, w')"
  using assms by (simp add: main_def Let_def)

lemma post_error_comment_calls:
  "snd (post_error_comment pf msg calls after) = calls @ [PostErrorComment msg]"
  by (simp add: post_error_comment_def split: option.splits)

lemma post_error_comment_returns:
  "post_error_comment_error pf = None \<Longrightarrow> fst (post_error_comment pf msg calls after) = after"
  by (simp add: post_error_comment_def)

lemma attempt_body_world: "snd (attempt_body create decode sp up w) = w @ [Create]"
  by (simp add: attempt_body_def Let_def split: api_result.splits list.splits)

lemma n_calls_append: "n_calls (w @ v) = n_calls w + n_calls v"
  by (simp add: n_calls_def)

lemma n_calls_Create: "n_calls [Create] = 1"
  by (simp add: n_calls_def)

lemma n_calls_Sleep: "n_calls [Sleep n] = 0"
  by (simp add: n_calls_def)

text \<open>
  The call number \<open>k\<close> raises an authentication failure whatever the prompts. When the
  loop makes that call, it ends with the failure, and the call is its last effect.
\<close>

lemma call_openai_loop_auth_at:
  assumes k: "\<forall>sp up. create k sp up = Raises (AuthenticationError m)"
  shows "call_openai_loop M create decode sp up attempt w = (r, w') \<Longrightarrow>
         n_calls w \<le> k \<Longrightarrow> k < n_calls w' \<Longrightarrow>
         r = Inl (AuthenticationError m) \<and> n_calls w' = k + 1"
proof (induction "M - attempt" arbitrary: attempt w)
  case 0
  then show ?case by (subst (asm) call_openai_loop.simps) simp
next
  case (Suc n)
  then have lt: "attempt < M" by simp
  obtain b v where b: "attempt_body create decode sp up w = (b, v)"
    by (cases "attempt_body create decode sp up w")
  have v: "v = w @ [Create]"
    using attempt_body_world[of create decode sp up w] b by simp
  have nv: "n_calls v = n_calls w + 1"
    by (simp add: v n_calls_append n_calls_Create)
  show ?case
  proof (cases "n_calls w = k")
    case True
    have "attempt_body create decode sp up w = (Inl (AuthenticationError m), w @ [Create])"
      using k True by (intro attempt_body_raises) simp
    then have "call_openai_loop M create decode sp up attempt w =
        (Inl (AuthenticationError m), w @ [Create])"
      by (subst call_openai_loop.simps) (simp add: lt)
    then show ?thesis
      using Suc.prems(1) True by (simp add: n_calls_append n_calls_Create)
  next
    case False
    then have le: "n_calls v \<le> k" using Suc.prems(2) nv by simp
    show ?thesis
    proof (cases b)
      case (Inr resp)
      then have "(r, w') = (Inr resp, v)"
        using Suc.prems(1) by (subst (asm) call_openai_loop.simps) (simp add: lt b)
      then show ?thesis using le Suc.prems(3) by simp
    next
      case (Inl e)
      show ?thesis
      proof (cases e)
        case (RateLimitError x)
        define v' where "v' = (if attempt < M - 1 then v @ [Sleep (2 ^ (attempt + 1))] else v)"
        have nv': "n_calls v' \<le> k"
          using le by (simp add: v'_def n_calls_append n_calls_Sleep)
        have "call_openai_loop M create decode sp up (Suc attempt) v' = (r, w')"
          using Suc.prems(1)
          by (subst (asm) call_openai_loop.simps) (simp add: lt b Inl RateLimitError v'_def)
        then show ?thesis
          using Suc.hyps(1)[of "Suc attempt" v'] Suc.hyps(2) lt nv' Suc.prems(3) by simp
      next
        case (AuthenticationError x)
        then have "(r, w') = (Inl (AuthenticationError x), v)"
          using Suc.prems(1) by (subst (asm) call_openai_loop.simps) (simp add: lt b Inl)
        then show ?thesis using le Suc.prems(3) by simp
      next
        case (BadRequestError x)
        then have "w' = v"
          using Suc.prems(1) by (subst (asm) call_openai_loop.simps) (auto simp: lt b Inl)
        then show ?thesis using le Suc.prems(3) by simp
      next
        case (OtherError x)
        then have "w' = v"
          using Suc.prems(1) by (subst (asm) call_openai_loop.simps) (auto simp: lt b Inl)
        then show ?thesis using le Suc.prems(3) by simp
      qed
    qed
  qed
qed

lemma review_diff_auth_at:
  assumes "\<forall>sp up. create k sp up = Raises (AuthenticationError m)"
    and "review_diff self create decode fp ptext title description w = (r, w')"
    and "n_calls w \<le> k" and "k < n_calls w'"
  shows "r = Inl (AuthenticationError m) \<and> n_calls w' = k + 1"
proof (cases "is_mock self")
  case True
  then show ?thesis using assms(2,3,4) by (simp add: review_diff_def)
next
  case False
  then show ?thesis
    using assms call_openai_loop_auth_at[where create = create and k = k and m = m
        and M = MAX_RETRIES and decode = decode and attempt = 0 and w = w and r = r and w' = w'
        and sp = "build_system_prompt self"
        and up = "build_user_prompt fp ptext title description"]
    by (simp add: review_diff_def call_openai_def)
qed

lemma review_files_auth_at:
  assumes k: "\<forall>sp up. create k sp up = Raises (AuthenticationError m)"
  shows "review_files self create decode inputs title description w = (r, w') \<Longrightarrow>
         n_calls w \<le> k \<Longrightarrow> k < n_calls w' \<Longrightarrow>
         r = Inl (AuthenticationError m) \<and> n_calls w' = k + 1"
proof (induction inputs arbitrary: w r w')
  case Nil
  then show ?case by simp
next
  case (Cons i inputs)
  obtain fp ptext where i: "i = (fp, ptext)" by (cases i)
  obtain r1 w1 where d: "review_diff self create decode fp ptext title description w = (r1, w1)"
    by (cases "review_diff self create decode fp ptext title description w")
  show ?case
  proof (cases r1)
    case (Inl e)
    then have e: "r = Inl e" "w' = w1"
      using Cons.prems(1) by (simp_all add: i d)
    have "r1 = Inl (AuthenticationError m) \<and> n_calls w1 = k + 1"
      using review_diff_auth_at[where create = create and k = k and m = m, OF k d Cons.prems(2)]
        Cons.prems(3) e(2) by simp
    then show ?thesis
      using Inl e by simp
  next
    case (Inr resp)
    obtain r2 w2 where f: "review_files self create decode inputs title description w1 = (r2, w2)"
      by (cases "review_files self create decode inputs title description w1")
    have w2: "w' = w2" and r: "r2 = Inl (AuthenticationError m) \<Longrightarrow> r = Inl (AuthenticationError m)"
      using Cons.prems(1) by (auto simp: i d Inr f split: sum.splits)
    have le: "n_calls w1 \<le> k"
    proof (rule ccontr)
      assume "\<not> n_calls w1 \<le> k"
      then have "k < n_calls w1" by simp
      from review_diff_auth_at[where create = create and k = k and m = m, OF k d Cons.prems(2) this]
        Inr show False by simp
    qed
    from Cons.IH[OF f le] Cons.prems(3) w2 r show ?thesis by simp
  qed
qed

lemma main_world:
  assumes "\<not> is_fork pf"
    and "filter_reviewable_files (map to_file_dict (get_files pf)) \<noteq> []"
    and "review_files (AIReviewer_init key (fetch_project_context pf)) create decode
          (map (\<lambda>f. (get_filename f, patch_of f))
             (filter_reviewable_files (map to_file_dict (get_files pf))))
          (context_title pf) (context_description pf) w = (r, w')"
  shows "snd (main pf key create decode w) = w'"
  using assms
  by (cases r) (simp_all add: main_def Let_def post_error_comment_def split: option.splits)

text \<open>
  Claim C5, as the code has it. An authentication failure leaves the reviewer: when a
  call made during the review phase raises it, be it the first call or the call number
  \<open>k\<close> for a later file or attempt, \<open>review_files\<close> ends with that failure and that call
  is the last one made. The orchestrator does not let it go further. Whenever
  \<open>review_files\<close> ends with an exception, an authentication failure or any other, \<open>main\<close>
  makes exactly one posting call, the error comment with the message of the exception,
  posts no review comments, and returns when that call returns.
\<close>

theorem auth_failure_posted_as_error_comment:
  "\<not> is_fork pf \<and> filter_reviewable_files (map to_file_dict (get_files pf)) \<noteq> [] \<longrightarrow>
     (key \<noteq> [] \<and> key \<noteq> ''mock'' \<and>
      (\<forall>sp up. create (n_calls w) sp up = Raises (AuthenticationError m)) \<longrightarrow>
        review_files (AIReviewer_init key (fetch_project_context pf)) create decode
          (map (\<lambda>f. (get_filename f, patch_of f))
             (filter_reviewable_files (map to_file_dict (get_files pf))))
          (context_title pf) (context_description pf) w =
        (Inl (AuthenticationError m), w @ [Create])) \<and>
     (review_files (AIReviewer_init key (fetch_project_context pf)) create decode
          (map (\<lambda>f. (get_filename f, patch_of f))
             (filter_reviewable_files (map to_file_dict (get_files pf))))
          (context_title pf) (context_description pf) w =
        (Inl (AuthenticationError m), w') \<longrightarrow>
        snd (main pf key create decode w) = w' \<and>
        snd (fst (main pf key create decode w)) =
          [PostErrorComment (''CodeGuardian encountered an error: '' @ m)] \<and>
        (post_error_comment_error pf = None \<longrightarrow>
           fst (fst (main pf key create decode w)) = Returned)) \<and>
     ((\<forall>sp up. create k sp up = Raises (AuthenticationError m)) \<and> n_calls w \<le> k \<and>
      k < n_calls (snd (main pf key create decode w)) \<longrightarrow>
        review_files (AIReviewer_init key (fetch_project_context pf)) create decode
          (map (\<lambda>f. (get_filename f, patch_of f))
             (filter_reviewable_files (map to_file_dict (get_files pf))))
          (context_title pf) (context_description pf) w =
        (Inl (AuthenticationError m), snd (main pf key create decode w)) \<and>
        n_calls (snd (main pf key create decode w)) = k + 1 \<and>
        snd (fst (main pf key create decode w)) =
          [PostErrorComment (''CodeGuardian encountered an error: '' @ m)] \<and>
        (post_error_comment_error pf = None \<longrightarrow>
           fst (fst (main pf key create decode w)) = Returned)) \<and>
     (review_files (AIReviewer_init key (fetch_project_context pf)) create decode
          (map (\<lambda>f. (get_filename f, patch_of f))
             (filter_reviewable_files (map to_file_dict (get_files pf))))
          (context_title pf) (context_description pf) w = (Inl e, w'') \<longrightarrow>
        snd (main pf key create decode w) = w'' \<and>
        snd (fst (main pf key create decode w)) =
          [PostErrorComment (''CodeGuardian encountered an error: '' @ str_exn e)] \<and>
        (post_error_comment_error pf = None \<longrightarrow>
           fst (fst (main pf key create decode w)) = Returned))"
proof (intro impI, elim conjE)
  assume a: "\<not> is_fork pf" "filter_reviewable_files (map to_file_dict (get_files pf)) \<noteq> []"
  have caught: "snd (main pf key create decode w) = v \<and>
        snd (fst (main pf key create decode w)) = [PostErrorComment (''CodeGuardian encountered an error: '' @ str_exn x)] \<and>
        (post_error_comment_error pf = None \<longrightarrow> fst (fst (main pf key create decode w)) = Returned)"
    if r: "review_files (AIReviewer_init key (fetch_project_context pf)) create decode
          (map (\<lambda>f. (get_filename f, patch_of f))
             (filter_reviewable_files (map to_file_dict (get_files pf))))
          (context_title pf) (context_description pf) w = (Inl x, v)" for x v
    unfolding main_review_error[OF a r]
    by (simp add: post_error_comment_calls post_error_comment_returns)
  have auth: "snd (main pf key create decode w) = v \<and>
        snd (fst (main pf key create decode w)) = [PostErrorComment (''CodeGuardian encountered an error: '' @ m)] \<and>
        (post_error_comment_error pf = None \<longrightarrow> fst (fst (main pf key create decode w)) = Returned)"
    if r: "review_files (AIReviewer_init key (fetch_project_context pf)) create decode
          (map (\<lambda>f. (get_filename f, patch_of f))
             (filter_reviewable_files (map to_file_dict (get_files pf))))
          (context_title pf) (context_description pf) w = (Inl (AuthenticationError m), v)" for v
    using caught[OF r] unfolding str_exn.simps .
  have first: "review_files (AIReviewer_init key (fetch_project_context pf)) create decode
          (map (\<lambda>f. (get_filename f, patch_of f))
             (filter_reviewable_files (map to_file_dict (get_files pf))))
          (context_title pf) (context_description pf) w =
        (Inl (AuthenticationError m), w @ [Create])"
    if "key \<noteq> [] \<and> key \<noteq> ''mock'' \<and>
      (\<forall>sp up. create (n_calls w) sp up = Raises (AuthenticationError m))"
  proof -
    have "\<not> is_mock (AIReviewer_init key (fetch_project_context pf))"
      using that by (simp add: AIReviewer_init_def)
    then show ?thesis
      using a(2) that by (intro review_files_auth) auto
  qed
  have later: "review_files (AIReviewer_init key (fetch_project_context pf)) create decode
          (map (\<lambda>f. (get_filename f, patch_of f))
             (filter_reviewable_files (map to_file_dict (get_files pf))))
          (context_title pf) (context_description pf) w =
        (Inl (AuthenticationError m), snd (main pf key create decode w)) \<and>
        n_calls (snd (main pf key create decode w)) = k + 1 \<and>
        snd (fst (main pf key create decode w)) = [PostErrorComment (''CodeGuardian encountered an error: '' @ m)] \<and>
        (post_error_comment_error pf = None \<longrightarrow> fst (fst (main pf key create decode w)) = Returned)"
    if h: "(\<forall>sp up. create k sp up = Raises (AuthenticationError m)) \<and> n_calls w \<le> k \<and>
      k < n_calls (snd (main pf key create decode w))"
  proof -
    obtain r v where rv: "review_files (AIReviewer_init key (fetch_project_context pf)) create decode
          (map (\<lambda>f. (get_filename f, patch_of f))
             (filter_reviewable_files (map to_file_dict (get_files pf))))
          (context_title pf) (context_description pf) w = (r, v)"
      by (cases "review_files (AIReviewer_init key (fetch_project_context pf)) create decode
          (map (\<lambda>f. (get_filename f, patch_of f))
             (filter_reviewable_files (map to_file_dict (get_files pf))))
          (context_title pf) (context_description pf) w")
    have v: "snd (main pf key create decode w) = v"
      by (rule main_world[OF a rv])
    have h1: "\<forall>sp up. create k sp up = Raises (AuthenticationError m)"
      and h2: "n_calls w \<le> k" and h3: "k < n_calls v"
      using h unfolding v by blast+
    have rk: "r = Inl (AuthenticationError m) \<and> n_calls v = k + 1"
      by (rule review_files_auth_at[where create = create and k = k and m = m,
            OF h1 rv h2 h3])
    then have rv': "review_files (AIReviewer_init key (fetch_project_context pf)) create decode
          (map (\<lambda>f. (get_filename f, patch_of f))
             (filter_reviewable_files (map to_file_dict (get_files pf))))
          (context_title pf) (context_description pf) w = (Inl (AuthenticationError m), v)"
      using rv by blast
    show ?thesis
      unfolding v using rv' rk auth[OF rv'] unfolding v by blast
  qed
  show "(key \<noteq> [] \<and> key \<noteq> ''mock'' \<and>
      (\<forall>sp up. create (n_calls w) sp up = Raises (AuthenticationError m)) \<longrightarrow>
        review_files (AIReviewer_init key (fetch_project_context pf)) create decode
          (map (\<lambda>f. (get_filename f, patch_of f))
             (filter_reviewable_files (map to_file_dict (get_files pf))))
          (context_title pf) (context_description pf) w =
        (Inl (AuthenticationError m), w @ [Create])) \<and>
     (review_files (AIReviewer_init key (fetch_project_context pf)) create decode
          (map (\<lambda>f. (get_filename f, patch_of f))
             (filter_reviewable_files (map to_file_dict (get_files pf))))
          (context_title pf) (context_description pf) w =
        (Inl (AuthenticationError m), w') \<longrightarrow>
        snd (main pf key create decode w) = w' \<and>
        snd (fst (main pf key create decode w)) =
          [PostErrorComment (''CodeGuardian encountered an error: '' @ m)] \<and>
        (post_error_comment_error pf = None \<longrightarrow>
           fst (fst (main pf key create decode w)) = Returned)) \<and>
     ((\<forall>sp up. create k sp up = Raises (AuthenticationError m)) \<and> n_calls w \<le> k \<and>
      k < n_calls (snd (main pf key create decode w)) \<longrightarrow>
        review_files (AIReviewer_init key (fetch_project_context pf)) create decode
          (map (\<lambda>f. (get_filename f, patch_of f))
             (filter_reviewable_files (map to_file_dict (get_files pf))))
          (context_title pf) (context_description pf) w =
        (Inl (AuthenticationError m), snd (main pf key create decode w)) \<and>
        n_calls (snd (main pf key create decode w)) = k + 1 \<and>
        snd (fst (main pf key create decode w)) =
          [PostErrorComment (''CodeGuardian encountered an error: '' @ m)] \<and>
        (post_error_comment_error pf = None \<longrightarrow>
           fst (fst (main pf key create decode w)) = Returned)) \<and>
     (review_files (AIReviewer_init key (fetch_project_context pf)) create decode
          (map (\<lambda>f. (get_filename f, patch_of f))
             (filter_reviewable_files (map to_file_dict (get_files pf))))
          (context_title pf) (context_description pf) w = (Inl e, w'') \<longrightarrow>
        snd (main pf key create decode w) = w'' \<and>
        snd (fst (main pf key create decode w)) =
          [PostErrorComment (''CodeGuardian encountered an error: '' @ str_exn e)] \<and>
        (post_error_comment_error pf = None \<longrightarrow>
           fst (fst (main pf key create decode w)) = Returned))"
    apply (rule conjI)
     apply (rule impI, erule first)
    apply (rule conjI)
     apply (rule impI, erule auth)
    apply (rule conjI)
     apply (rule impI, erule later)
    apply (rule impI, erule caught)
    done
qed

lemma sample_reviewable:
  "filter_reviewable_files (map to_file_dict (get_files sample_platform)) =
     [\<lparr>filename = Some ''src/app.py'',
       patch = Some ''@@ -1,3 +1,5 @@\<newline> a\<newline>+b\<newline>+c\<newline> d\<newline> e'',
       additions = Some 2, deletions = Some 0\<rparr>]"
  by code_simp

lemma two_file_reviewable:
  "filter_reviewable_files (map to_file_dict (get_files two_file_platform)) =
     [\<lparr>filename = Some ''src/app.py'',
       patch = Some ''@@ -1,3 +1,5 @@\<newline> a\<newline>+b\<newline>+c\<newline> d\<newline> e'',
       additions = Some 2, deletions = Some 0\<rparr>,
      \<lparr>filename = Some ''src/util.py'', patch = Some ''@@ -0,0 +1 @@\<newline>+x'',
       additions = Some 1, deletions = Some 0\<rparr>]"
  by code_simp

lemma call_first_ok:
  "call_openai denying_later_backend empty_review_decoder sp up [] =
     (Inr \<lparr>comments = [], summary = ''ok''\<rparr>, [Create])"
  unfolding call_openai_def
  by (subst call_openai_loop.simps)
    (simp add: MAX_RETRIES_def attempt_body_def denying_later_backend_def n_calls_def
      empty_review_decoder_def)

lemma call_second_denied:
  "call_openai denying_later_backend empty_review_decoder sp up [Create] =
     (Inl (AuthenticationError ''Invalid API key''), [Create, Create])"
  unfolding call_openai_def
  by (subst call_openai_loop.simps)
    (simp add: MAX_RETRIES_def attempt_body_def denying_later_backend_def n_calls_def)

lemma two_file_review:
  "review_files (AIReviewer_init ''sk-test'' (fetch_project_context two_file_platform))
       denying_later_backend empty_review_decoder
       (map (\<lambda>f. (get_filename f, patch_of f))
          (filter_reviewable_files (map to_file_dict (get_files two_file_platform))))
       (context_title two_file_platform) (context_description two_file_platform) [] =
     (Inl (AuthenticationError ''Invalid API key''), [Create, Create])"
  by (simp add: two_file_reviewable review_diff_def AIReviewer_init_def call_first_ok
      call_second_denied)

theorem auth_failure_posted_as_error_comment_witness:
  "\<not> is_fork sample_platform \<and>
   filter_reviewable_files (map to_file_dict (get_files sample_platform)) \<noteq> [] \<and>
   review_files (AIReviewer_init ''sk-test'' (fetch_project_context sample_platform))
       denying_backend unused_decoder
       (map (\<lambda>f. (get_filename f, patch_of f))
          (filter_reviewable_files (map to_file_dict (get_files sample_platform))))
       (context_title sample_platform) (context_description sample_platform) [] =
     (Inl (AuthenticationError ''Invalid API key''), [Create]) \<and>
   snd (main sample_platform ''sk-test'' denying_backend unused_decoder []) = [Create] \<and>
   snd (fst (main sample_platform ''sk-test'' denying_backend unused_decoder [])) =
     [PostErrorComment ''CodeGuardian encountered an error: Invalid API key''] \<and>
   fst (fst (main sample_platform ''sk-test'' denying_backend unused_decoder [])) = Returned \<and>
   \<not> is_fork two_file_platform \<and>
   filter_reviewable_files (map to_file_dict (get_files two_file_platform)) \<noteq> [] \<and>
   n_calls [] \<le> 1 \<and>
   1 < n_calls (snd (main two_file_platform ''sk-test'' denying_later_backend
                       empty_review_decoder [])) \<and>
   review_files (AIReviewer_init ''sk-test'' (fetch_project_context two_file_platform))
       denying_later_backend empty_review_decoder
       (map (\<lambda>f. (get_filename f, patch_of f))
          (filter_reviewable_files (map to_file_dict (get_files two_file_platform))))
       (context_title two_file_platform) (context_description two_file_platform) [] =
     (Inl (AuthenticationError ''Invalid API key''),
      snd (main two_file_platform ''sk-test'' denying_later_backend empty_review_decoder [])) \<and>
   n_calls (snd (main two_file_platform ''sk-test'' denying_later_backend
                   empty_review_decoder [])) = 2 \<and>
   snd (fst (main two_file_platform ''sk-test'' denying_later_backend empty_review_decoder [])) =
     [PostErrorComment ''CodeGuardian encountered an error: Invalid API key''] \<and>
   fst (fst (main two_file_platform ''sk-test'' denying_later_backend empty_review_decoder [])) =
     Returned"
proof -
  have f: "\<not> is_fork sample_platform"
    by (simp add: sample_platform_def)
  have n: "filter_reviewable_files (map to_file_dict (get_files sample_platform)) \<noteq> []"
    by (simp add: sample_reviewable)
  have k: "''sk-test'' \<noteq> [] \<and> ''sk-test'' \<noteq> ''mock'' \<and>
      (\<forall>sp up. denying_backend (n_calls []) sp up =
         Raises (AuthenticationError ''Invalid API key''))"
    by (simp add: denying_backend_def)
  have e: "post_error_comment_error sample_platform = None"
    by (simp add: sample_platform_def)
  note T = auth_failure_posted_as_error_comment[
      where pf = sample_platform and key = "''sk-test''" and create = denying_backend
        and decode = unused_decoder and w = "[]" and m = "''Invalid API key''"
        and w' = "[Create]",
      THEN mp, OF conjI[OF f n]]
  note R = T[THEN conjunct1, THEN mp, OF k]
  note M = T[THEN conjunct2, THEN conjunct1, THEN mp, OF R[simplified]]
  have one: "review_files (AIReviewer_init ''sk-test'' (fetch_project_context sample_platform))
       denying_backend unused_decoder
       (map (\<lambda>f. (get_filename f, patch_of f))
          (filter_reviewable_files (map to_file_dict (get_files sample_platform))))
       (context_title sample_platform) (context_description sample_platform) [] =
     (Inl (AuthenticationError ''Invalid API key''), [Create]) \<and>
   snd (main sample_platform ''sk-test'' denying_backend unused_decoder []) = [Create] \<and>
   snd (fst (main sample_platform ''sk-test'' denying_backend unused_decoder [])) =
     [PostErrorComment ''CodeGuardian encountered an error: Invalid API key''] \<and>
   fst (fst (main sample_platform ''sk-test'' denying_backend unused_decoder [])) = Returned"
    using R M e by simp
  have f2: "\<not> is_fork two_file_platform"
    by (simp add: two_file_platform_def)
  have n2: "filter_reviewable_files (map to_file_dict (get_files two_file_platform)) \<noteq> []"
    by (simp add: two_file_reviewable)
  have e2: "post_error_comment_error two_file_platform = None"
    by (simp add: two_file_platform_def)
  have w2: "snd (main two_file_platform ''sk-test'' denying_later_backend empty_review_decoder [])
      = [Create, Create]"
    by (rule main_world[OF f2 n2 two_file_review])
  have c2: "n_calls [Create, Create] = 2"
    by (simp add: n_calls_def)
  have h1: "\<forall>sp up. denying_later_backend 1 sp up = Raises (AuthenticationError ''Invalid API key'')"
    by (simp add: denying_later_backend_def)
  have h2: "n_calls [] \<le> 1"
    by (simp add: n_calls_def)
  have h3: "1 < n_calls (snd (main two_file_platform ''sk-test'' denying_later_backend
                       empty_review_decoder []))"
    unfolding w2 c2 by simp
  note L = auth_failure_posted_as_error_comment[
      where pf = two_file_platform and key = "''sk-test''" and create = denying_later_backend
        and decode = empty_review_decoder and w = "[]" and m = "''Invalid API key''"
        and k = 1,
      THEN mp, OF conjI[OF f2 n2], THEN conjunct2, THEN conjunct2, THEN conjunct1, THEN mp,
      OF conjI[OF h1 conjI[OF h2 h3]]]
  have two: "review_files (AIReviewer_init ''sk-test'' (fetch_project_context two_file_platform))
       denying_later_backend empty_review_decoder
       (map (\<lambda>f. (get_filename f, patch_of f))
          (filter_reviewable_files (map to_file_dict (get_files two_file_platform))))
       (context_title two_file_platform) (context_description two_file_platform) [] =
     (Inl (AuthenticationError ''Invalid API key''),
      snd (main two_file_platform ''sk-test'' denying_later_backend empty_review_decoder [])) \<and>
   n_calls (snd (main two_file_platform ''sk-test'' denying_later_backend
                   empty_review_decoder [])) = 2 \<and>
   snd (fst (main two_file_platform ''sk-test'' denying_later_backend empty_review_decoder [])) =
     [PostErrorComment ''CodeGuardian encountered an error: Invalid API key''] \<and>
   fst (fst (main two_file_platform ''sk-test'' denying_later_backend empty_review_decoder [])) =
     Returned"
    using L e2 by simp
  show ?thesis
    using f n one f2 n2 h2 h3 two by blast
qed

theorem auth_failure_is_caught_by_main:
  "fst (main sample_platform ''sk-test'' denying_backend unused_decoder []) =
     (Returned, [PostErrorComment ''CodeGuardian encountered an error: Invalid API key''])"
proof -
  have "\<not> is_mock (AIReviewer_init ''sk-test'' (fetch_project_context sample_platform))"
    by (simp add: AIReviewer_init_def)
  then have "review_files (AIReviewer_init ''sk-test'' (fetch_project_context sample_platform))
       denying_backend unused_decoder
       (map (\<lambda>f. (get_filename f, patch_of f))
          (filter_reviewable_files (map to_file_dict (get_files sample_platform))))
       (context_title sample_platform) (context_description sample_platform) [] =
     (Inl (AuthenticationError ''Invalid API key''), [] @ [Create])"
    by (intro review_files_auth) (simp_all add: sample_reviewable denying_backend_def)
  then have "main sample_platform ''sk-test'' denying_backend unused_decoder [] =
           (post_error_comment sample_platform
              (''CodeGuardian encountered an error: '' @
               str_exn (AuthenticationError ''Invalid API key'')) [] Returned, [] @ [Create])"
    by (intro main_review_error) (simp_all add: sample_reviewable, simp add: sample_platform_def)
  then show ?thesis
    by (simp add: post_error_comment_def sample_platform_def)
qed

section \<open>Properties of the sanitizer\<close>

lemma re_sub_match:
  "m prev s = Some (repl, n) \<Longrightarrow> 0 < n \<Longrightarrow> n \<le> length s \<Longrightarrow>
   re_sub m prev s = repl @ re_sub m (Some (s ! (n - 1))) (drop n s)"
  by (cases s) auto

lemma sanitize_input_length: "length (sanitize_input t) \<le> MAX_INPUT_LENGTH"
  by (simp add: sanitize_input_def Let_def)

lemma sanitize_input_passes:
  "sanitize_input t =
     take MAX_INPUT_LENGTH
       (re_sub backtick_pattern None
          (re_sub heading_pattern None
             (re_sub link_pattern None
                (re_sub emphasis_pattern None
                   (re_sub image_pattern None t)))))"
  by (simp add: sanitize_input_def Let_def)

lemma backtick_pattern_Some:
  "backtick_pattern prev s = Some (repl, n) \<Longrightarrow> repl = [] \<and> 0 < n \<and> n \<le> length s"
  using length_takeWhile_le[of "\<lambda>c. c = backtick" s]
  by (auto simp: backtick_pattern_def Let_def split: if_splits)

lemma backtick_pattern_None:
  "backtick_pattern prev (c # cs) = None \<Longrightarrow> c \<noteq> backtick"
  by (auto simp: backtick_pattern_def Let_def split: if_splits)

lemma re_sub_backtick_free: "backtick \<notin> set (re_sub backtick_pattern prev s)"
proof (induction backtick_pattern prev s rule: re_sub.induct)
  case (1 prev)
  then show ?case by simp
next
  case (2 prev c cs)
  show ?case
  proof (cases "backtick_pattern prev (c # cs)")
    case None
    then show ?thesis using 2(1) backtick_pattern_None[OF None] by simp
  next
    case (Some a)
    obtain repl n where a: "a = (repl, n)" by (cases a)
    from backtick_pattern_Some[OF Some[unfolded a]]
    have r: "repl = []" "0 < n" "n \<le> length (c # cs)" by auto
    show ?thesis
      using 2(2)[OF Some a[symmetric]] r Some a by simp
  qed
qed

lemma sanitize_input_backtick_free: "backtick \<notin> set (sanitize_input t)"
  unfolding sanitize_input_passes using re_sub_backtick_free by (auto dest: in_set_takeD)

lemma re_sub_match_prefix:
  assumes "m prev (q @ c # rest) = Some (repl, Suc (length q))"
  shows "re_sub m prev (q @ c # rest) = repl @ re_sub m (Some c) rest"
  using re_sub_match[of m prev "q @ c # rest" repl "Suc (length q)"] assms by simp

lemma takeWhile_upto:
  "\<forall>x\<in>set a. P x \<Longrightarrow> \<not> P y \<Longrightarrow> takeWhile P (a @ y # r) = a"
  by (induction a) auto

lemma dropWhile_upto:
  "\<forall>x\<in>set a. P x \<Longrightarrow> \<not> P y \<Longrightarrow> dropWhile P (a @ y # r) = y # r"
  by (induction a) auto

lemma bracket_paren_match:
  assumes "CHR '']'' \<notin> set a" and "CHR '')'' \<notin> set u"
  shows "bracket_paren (a @ CHR '']'' # CHR ''('' # u @ CHR '')'' # rest) =
           Some (a, length a + 2 + length u + 1)"
proof -
  have 1: "takeWhile (\<lambda>c. c \<noteq> CHR '']'') (a @ CHR '']'' # CHR ''('' # u @ CHR '')'' # rest) = a"
    using assms(1) by (intro takeWhile_upto) auto
  have 2: "dropWhile (\<lambda>c. c \<noteq> CHR '']'') (a @ CHR '']'' # CHR ''('' # u @ CHR '')'' # rest) =
      CHR '']'' # CHR ''('' # u @ CHR '')'' # rest"
    using assms(1) by (intro dropWhile_upto) auto
  have 3: "takeWhile (\<lambda>c. c \<noteq> CHR '')'') (u @ CHR '')'' # rest) = u"
    using assms(2) by (intro takeWhile_upto) auto
  have 4: "dropWhile (\<lambda>c. c \<noteq> CHR '')'') (u @ CHR '')'' # rest) = CHR '')'' # rest"
    using assms(2) by (intro dropWhile_upto) auto
  show ?thesis
    unfolding bracket_paren_def 1 2 Let_def
    by (simp add: strip_prefix_def startswith_def 3 4)
qed

lemma re_sub_image:
  assumes "CHR '']'' \<notin> set a" and "CHR '')'' \<notin> set u"
  shows "re_sub image_pattern prev (''!['' @ a @ '']('' @ u @ '')'' @ rest) =
           a @ re_sub image_pattern (Some (CHR '')'')) rest"
proof -
  have m: "image_pattern prev ((''!['' @ a @ '']('' @ u) @ CHR '')'' # rest) =
      Some (a, Suc (length (''!['' @ a @ '']('' @ u)))"
    using bracket_paren_match[OF assms, of rest]
    by (simp add: image_pattern_def strip_prefix_def startswith_def)
  show ?thesis
    using re_sub_match_prefix[of image_pattern prev "''!['' @ a @ '']('' @ u" "CHR '')''" rest a] m
    by simp
qed

lemma re_sub_link:
  assumes "CHR '']'' \<notin> set a" and "CHR '')'' \<notin> set u"
  shows "re_sub link_pattern prev (''['' @ a @ '']('' @ u @ '')'' @ rest) =
           a @ re_sub link_pattern (Some (CHR '')'')) rest"
proof -
  have m: "link_pattern prev ((''['' @ a @ '']('' @ u) @ CHR '')'' # rest) =
      Some (a, Suc (length (''['' @ a @ '']('' @ u)))"
    using bracket_paren_match[OF assms, of rest]
    by (simp add: link_pattern_def strip_prefix_def startswith_def)
  show ?thesis
    using re_sub_match_prefix[of link_pattern prev "''['' @ a @ '']('' @ u" "CHR '')''" rest a] m
    by simp
qed


lemma takeWhile_run:
  "\<forall>x\<in>set a. P x \<Longrightarrow> takeWhile P r = [] \<Longrightarrow> takeWhile P (a @ r) = a"
  by (simp add: takeWhile_append2)

lemma re_sub_match_whole:
  assumes "m prev (p @ rest) = Some (repl, length p)" and "p \<noteq> []"
  shows "re_sub m prev (p @ rest) = repl @ re_sub m (Some (last p)) rest"
proof -
  have "(p @ rest) ! (length p - 1) = last p"
    using assms(2) by (simp add: nth_append last_conv_nth)
  then show ?thesis
    using re_sub_match[of m prev "p @ rest" repl "length p"] assms by simp
qed

lemma re_sub_emphasis:
  assumes k: "1 \<le> k" "k \<le> 3" and j: "1 \<le> j" "j \<le> 3"
    and x: "x \<noteq> []" "CHR ''*'' \<notin> set x" "newline \<notin> set x"
    and rest: "stars rest = 0"
  shows "re_sub emphasis_pattern prev
           (replicate k (CHR ''*'') @ x @ replicate j (CHR ''*'') @ rest) =
         x @ re_sub emphasis_pattern (Some (CHR ''*'')) rest"
proof -
  let ?st = "CHR ''*''"
  let ?s = "replicate k ?st @ x @ replicate j ?st @ rest"
  have tx: "takeWhile (\<lambda>c. c = ?st) (x @ replicate j ?st @ rest) = []"
    using x(1,2) by (cases x) auto
  have s1: "stars ?s = k"
    unfolding stars_def using takeWhile_run[of "replicate k ?st" "\<lambda>c. c = ?st", OF _ tx] by simp
  have tj: "takeWhile (\<lambda>c. c \<noteq> ?st \<and> c \<noteq> newline) (replicate j ?st @ rest) = []"
    using j(1) by (cases j) auto
  have inner: "takeWhile (\<lambda>c. c \<noteq> ?st \<and> c \<noteq> newline) (x @ replicate j ?st @ rest) = x"
    using x(2,3) by (intro takeWhile_run[OF _ tj]) auto
  have tr: "takeWhile (\<lambda>c. c = ?st) rest = []"
    using rest by (simp add: stars_def)
  have s2: "stars (replicate j ?st @ rest) = j"
    unfolding stars_def using takeWhile_run[of "replicate j ?st" "\<lambda>c. c = ?st", OF _ tr] by simp
  have m: "emphasis_pattern prev ((replicate k ?st @ x @ replicate j ?st) @ rest) =
      Some (x, length (replicate k ?st @ x @ replicate j ?st))"
    using k j by (simp add: emphasis_pattern_def Let_def s1 inner s2)
  have l: "last (replicate k ?st @ x @ replicate j ?st) = ?st"
    using j(1) by (cases j) auto
  have ne: "replicate k ?st @ x @ replicate j ?st \<noteq> []"
    using x(1) by simp
  show ?thesis
    using re_sub_match_whole[of emphasis_pattern prev "replicate k ?st @ x @ replicate j ?st"
        rest x] m ne l by simp
qed

lemma not_isspace_hash: "\<not> isspace (CHR ''#'')"
  by (simp add: isspace_def)

lemma re_sub_heading:
  assumes h: "1 \<le> h" "h \<le> 6"
    and ws: "ws \<noteq> []" "\<forall>c\<in>set ws. isspace c"
    and rest: "takeWhile isspace rest = []"
    and prev: "prev = None \<or> prev = Some newline"
  shows "re_sub heading_pattern prev (replicate h (CHR ''#'') @ ws @ rest) =
         re_sub heading_pattern (Some (last ws)) rest"
proof -
  let ?hs = "replicate h (CHR ''#'')"
  have tw: "takeWhile (\<lambda>c. c = CHR ''#'') (ws @ rest) = []"
    using ws not_isspace_hash by (cases ws) auto
  have 1: "takeWhile (\<lambda>c. c = CHR ''#'') (?hs @ ws @ rest) = ?hs"
    by (intro takeWhile_run[OF _ tw]) simp
  have 2: "takeWhile isspace (ws @ rest) = ws"
    using ws(2) by (intro takeWhile_run[OF _ rest])
  have m: "heading_pattern prev ((?hs @ ws) @ rest) = Some ([], length (?hs @ ws))"
    using h prev ws(1) by (auto simp: heading_pattern_def Let_def 1 2)
  show ?thesis
    using re_sub_match_whole[of heading_pattern prev "?hs @ ws" rest "[]"] m ws(1) by simp
qed

lemma re_sub_no_start:
  assumes "\<forall>prev c cs. c \<noteq> c0 \<longrightarrow> m prev (c # cs) = None"
  shows "c0 \<notin> set s \<Longrightarrow> re_sub m prev s = s"
  using assms by (induction s arbitrary: prev) auto

lemma re_sub_skip:
  assumes "\<forall>prev c cs. c \<noteq> c0 \<longrightarrow> m prev (c # cs) = None"
  shows "c0 \<notin> set pre \<Longrightarrow>
         re_sub m prev (pre @ s) = pre @ re_sub m (if pre = [] then prev else Some (last pre)) s"
  using assms by (induction pre arbitrary: prev) auto

lemma image_start: "\<forall>prev c cs. c \<noteq> CHR ''!'' \<longrightarrow> image_pattern prev (c # cs) = None"
  by (simp add: image_pattern_def strip_prefix_def startswith_def)

lemma link_start: "\<forall>prev c cs. c \<noteq> CHR ''['' \<longrightarrow> link_pattern prev (c # cs) = None"
  by (simp add: link_pattern_def strip_prefix_def startswith_def)

lemma emphasis_start: "\<forall>prev c cs. c \<noteq> CHR ''*'' \<longrightarrow> emphasis_pattern prev (c # cs) = None"
  by (simp add: emphasis_pattern_def stars_def)

lemma heading_start: "\<forall>prev c cs. c \<noteq> CHR ''#'' \<longrightarrow> heading_pattern prev (c # cs) = None"
  by (simp add: heading_pattern_def)

lemma backtick_start: "\<forall>prev c cs. c \<noteq> backtick \<longrightarrow> backtick_pattern prev (c # cs) = None"
  by (simp add: backtick_pattern_def)

lemmas image_id = re_sub_no_start[of "CHR ''!''" image_pattern, OF image_start]
lemmas emphasis_id = re_sub_no_start[of "CHR ''*''" emphasis_pattern, OF emphasis_start]
lemmas link_id = re_sub_no_start[of "CHR ''[''" link_pattern, OF link_start]
lemmas heading_id = re_sub_no_start[of "CHR ''#''" heading_pattern, OF heading_start]
lemmas backtick_id = re_sub_no_start[of backtick backtick_pattern, OF backtick_start]

lemma plainD:
  assumes "plain s"
  shows "CHR ''!'' \<notin> set s" "CHR ''['' \<notin> set s" "CHR '']'' \<notin> set s" "CHR ''('' \<notin> set s"
    "CHR '')'' \<notin> set s" "CHR ''*'' \<notin> set s" "CHR ''#'' \<notin> set s" "backtick \<notin> set s"
  using assms by (auto simp: plain_def list_all_iff)

lemma plain_append: "plain (a @ b) = (plain a \<and> plain b)"
  by (simp add: plain_def)


lemma stars_no_star: "CHR ''*'' \<notin> set s \<Longrightarrow> stars s = 0"
  by (cases s) (auto simp: stars_def)

lemma filter_take_run:
  "n \<le> length (takeWhile P s) \<Longrightarrow> filter (\<lambda>c. \<not> P c) (take n s) = []"
proof (induction s arbitrary: n)
  case Nil
  then show ?case by simp
next
  case (Cons c s)
  then show ?case by (cases n) (auto split: if_splits)
qed

lemma re_sub_backtick_filter:
  "re_sub backtick_pattern prev s = filter (\<lambda>c. c \<noteq> backtick) s"
proof (induction backtick_pattern prev s rule: re_sub.induct)
  case (1 prev)
  then show ?case by simp
next
  case (2 prev c cs)
  show ?case
  proof (cases "backtick_pattern prev (c # cs)")
    case None
    then show ?thesis using 2(1) backtick_pattern_None[OF None] by simp
  next
    case (Some a)
    obtain repl n where a: "a = (repl, n)" by (cases a)
    from backtick_pattern_Some[OF Some[unfolded a]]
    have r: "repl = []" "0 < n" "n \<le> length (c # cs)" by auto
    have "n \<le> length (takeWhile (\<lambda>x. x = backtick) (c # cs))"
      using Some a by (auto simp: backtick_pattern_def Let_def split: if_splits)
    then have t: "filter (\<lambda>x. x \<noteq> backtick) (take n (c # cs)) = []"
      by (rule filter_take_run)
    have "filter (\<lambda>x. x \<noteq> backtick) (c # cs) =
        filter (\<lambda>x. x \<noteq> backtick) (take n (c # cs) @ drop n (c # cs))"
      by (simp only: append_take_drop_id)
    also have "\<dots> = filter (\<lambda>x. x \<noteq> backtick) (drop n (c # cs))"
      unfolding filter_append t by simp
    finally have f: "filter (\<lambda>x. x \<noteq> backtick) (c # cs) =
        filter (\<lambda>x. x \<noteq> backtick) (drop n (c # cs))" .
    have "re_sub backtick_pattern prev (c # cs) =
        re_sub backtick_pattern (Some ((c # cs) ! (n - 1))) (drop n (c # cs))"
      using Some a r by simp
    then show ?thesis
      using 2(2)[OF Some a[symmetric]] r f by simp
  qed
qed

lemma tail_passes_plain:
  assumes "plain r"
  shows "re_sub emphasis_pattern None r = r" "re_sub link_pattern None r = r"
    "re_sub heading_pattern None r = r" "re_sub backtick_pattern None r = r"
  using assms emphasis_id link_id heading_id backtick_id by (simp_all add: plainD)

lemma sanitize_image:
  assumes p0: "plain p0" and a: "plain a" and u: "plain u" and p1: "plain p1"
  shows "sanitize_input (p0 @ ''!['' @ a @ '']('' @ u @ '')'' @ p1) =
           take MAX_INPUT_LENGTH (p0 @ a @ p1)"
proof -
  have 1: "re_sub image_pattern None (p0 @ ''!['' @ a @ '']('' @ u @ '')'' @ p1) = p0 @ a @ p1"
    by (simp only: re_sub_skip[of "CHR ''!''" image_pattern, OF image_start plainD(1)[OF p0]]
        re_sub_image[OF plainD(3)[OF a] plainD(5)[OF u]] image_id[OF plainD(1)[OF p1]])
  have r: "plain (p0 @ a @ p1)"
    using p0 a p1 by (simp add: plain_append)
  show ?thesis
    unfolding sanitize_input_passes 1 by (simp only: tail_passes_plain[OF r])
qed

lemma sanitize_link:
  assumes p0: "plain p0" and a: "plain a" and u: "plain u" and p1: "plain p1"
  shows "sanitize_input (p0 @ ''['' @ a @ '']('' @ u @ '')'' @ p1) =
           take MAX_INPUT_LENGTH (p0 @ a @ p1)"
proof -
  let ?t = "p0 @ ''['' @ a @ '']('' @ u @ '')'' @ p1"
  have i: "CHR ''!'' \<notin> set ?t" "CHR ''*'' \<notin> set ?t"
    using plainD[OF p0] plainD[OF a] plainD[OF u] plainD[OF p1] by simp_all
  have 1: "re_sub image_pattern None ?t = ?t"
    by (rule image_id[OF i(1)])
  have 2: "re_sub emphasis_pattern None ?t = ?t"
    by (rule emphasis_id[OF i(2)])
  have 3: "re_sub link_pattern None ?t = p0 @ a @ p1"
    by (simp only: re_sub_skip[of "CHR ''[''" link_pattern, OF link_start plainD(2)[OF p0]]
        re_sub_link[OF plainD(3)[OF a] plainD(5)[OF u]] link_id[OF plainD(2)[OF p1]])
  have r: "plain (p0 @ a @ p1)"
    using p0 a p1 by (simp add: plain_append)
  show ?thesis
    unfolding sanitize_input_passes 1 2 3 by (simp only: tail_passes_plain[OF r])
qed

lemma sanitize_emphasis:
  assumes p0: "plain p0" and x: "plain x" "x \<noteq> []" "newline \<notin> set x" and p1: "plain p1"
    and k: "1 \<le> k" "k \<le> 3" and j: "1 \<le> j" "j \<le> 3"
  shows "sanitize_input (p0 @ replicate k (CHR ''*'') @ x @ replicate j (CHR ''*'') @ p1) =
           take MAX_INPUT_LENGTH (p0 @ x @ p1)"
proof -
  let ?t = "p0 @ replicate k (CHR ''*'') @ x @ replicate j (CHR ''*'') @ p1"
  have i: "CHR ''!'' \<notin> set ?t"
    using plainD(1)[OF p0] plainD(1)[OF x(1)] plainD(1)[OF p1] by simp
  have 1: "re_sub image_pattern None ?t = ?t"
    by (rule image_id[OF i])
  have 2: "re_sub emphasis_pattern None ?t = p0 @ x @ p1"
    by (simp only: re_sub_skip[of "CHR ''*''" emphasis_pattern, OF emphasis_start plainD(6)[OF p0]]
        re_sub_emphasis[OF k j x(2) plainD(6)[OF x(1)] x(3) stars_no_star[OF plainD(6)[OF p1]]]
        emphasis_id[OF plainD(6)[OF p1]])
  have r: "plain (p0 @ x @ p1)"
    using p0 x(1) p1 by (simp add: plain_append)
  show ?thesis
    unfolding sanitize_input_passes 1 2 by (simp only: tail_passes_plain[OF r])
qed

lemma isspace_not_special:
  assumes "\<forall>c\<in>set ws. isspace c"
  shows "CHR ''!'' \<notin> set ws" "CHR ''*'' \<notin> set ws" "CHR ''['' \<notin> set ws" "CHR ''#'' \<notin> set ws"
  using assms by (auto simp: isspace_def)

lemma sanitize_heading:
  assumes p0: "plain p0" "p0 = [] \<or> last p0 = newline" and h: "1 \<le> h" "h \<le> 6"
    and ws: "ws \<noteq> []" "\<forall>c\<in>set ws. isspace c"
    and p1: "plain p1" "takeWhile isspace p1 = []"
  shows "sanitize_input (p0 @ replicate h (CHR ''#'') @ ws @ p1) =
           take MAX_INPUT_LENGTH (p0 @ p1)"
proof -
  let ?t = "p0 @ replicate h (CHR ''#'') @ ws @ p1"
  have i: "CHR ''!'' \<notin> set ?t" "CHR ''*'' \<notin> set ?t" "CHR ''['' \<notin> set ?t"
    using plainD[OF p0(1)] plainD[OF p1(1)] isspace_not_special[OF ws(2)] by simp_all
  have 1: "re_sub image_pattern None ?t = ?t"
    by (rule image_id[OF i(1)])
  have 2: "re_sub emphasis_pattern None ?t = ?t"
    by (rule emphasis_id[OF i(2)])
  have 3: "re_sub link_pattern None ?t = ?t"
    by (rule link_id[OF i(3)])
  have prev: "(if p0 = [] then None else Some (last p0)) = None \<or>
      (if p0 = [] then None else Some (last p0)) = Some newline"
    using p0(2) by auto
  have 4: "re_sub heading_pattern None ?t = p0 @ p1"
    by (simp only: re_sub_skip[of "CHR ''#''" heading_pattern, OF heading_start plainD(7)[OF p0(1)]]
        re_sub_heading[OF h ws p1(2) prev] heading_id[OF plainD(7)[OF p1(1)]])
  have r: "plain (p0 @ p1)"
    using p0(1) p1(1) by (simp add: plain_append)
  show ?thesis
    unfolding sanitize_input_passes 1 2 3 4 by (simp only: tail_passes_plain[OF r])
qed

lemma sanitize_backticks:
  assumes "CHR ''!'' \<notin> set t" "CHR ''*'' \<notin> set t" "CHR ''['' \<notin> set t" "CHR ''#'' \<notin> set t"
  shows "sanitize_input t = take MAX_INPUT_LENGTH (filter (\<lambda>c. c \<noteq> backtick) t)"
  unfolding sanitize_input_passes
  by (simp only: image_id[OF assms(1)] emphasis_id[OF assms(2)] link_id[OF assms(3)]
      heading_id[OF assms(4)] re_sub_backtick_filter)

text \<open>
  Claim C9, as the code has it. \<open>_sanitize_input\<close> is the five substitutions, in the order
  image, emphasis, link, heading, backtick, each once over the result of the one before,
  followed by the cut to \<open>MAX_INPUT_LENGTH\<close>, which is 500; so its result has at most 500
  characters, for every text, and holds no backtick. It does not strip every piece of
  Markdown from every text: a pass takes only what matches when it runs, so a link whose
  bracket and parenthesis a backtick separates and a heading marker behind a backtick
  come out as Markdown. What it strips is the syntax that stands in plain text: an image
  or a link with plain label and target becomes its label; one to three stars on each
  side of a plain text of one line go; one to six hashes with the white space after
  them go at the start of the text or of a line; and from a text without exclamation
  mark, star, opening bracket and hash every backtick goes.
\<close>

theorem sanitize_input_strips_and_truncates:
  "sanitize_input t =
     take MAX_INPUT_LENGTH
       (re_sub backtick_pattern None
          (re_sub heading_pattern None
             (re_sub link_pattern None
                (re_sub emphasis_pattern None
                   (re_sub image_pattern None t))))) \<and>
   MAX_INPUT_LENGTH = 500 \<and>
   length (sanitize_input t) \<le> 500 \<and>
   backtick \<notin> set (sanitize_input t) \<and>
   (\<forall>p0 a u p1. plain p0 \<and> plain a \<and> plain u \<and> plain p1 \<longrightarrow>
      sanitize_input (p0 @ ''!['' @ a @ '']('' @ u @ '')'' @ p1) = take 500 (p0 @ a @ p1)) \<and>
   (\<forall>p0 a u p1. plain p0 \<and> plain a \<and> plain u \<and> plain p1 \<longrightarrow>
      sanitize_input (p0 @ ''['' @ a @ '']('' @ u @ '')'' @ p1) = take 500 (p0 @ a @ p1)) \<and>
   (\<forall>p0 k x j p1.
      plain p0 \<and> plain x \<and> x \<noteq> [] \<and> newline \<notin> set x \<and> plain p1 \<and>
      1 \<le> k \<and> k \<le> 3 \<and> 1 \<le> j \<and> j \<le> 3 \<longrightarrow>
      sanitize_input (p0 @ replicate k (CHR ''*'') @ x @ replicate j (CHR ''*'') @ p1) =
        take 500 (p0 @ x @ p1)) \<and>
   (\<forall>p0 h ws p1.
      plain p0 \<and> (p0 = [] \<or> last p0 = newline) \<and> 1 \<le> h \<and> h \<le> 6 \<and>
      ws \<noteq> [] \<and> (\<forall>c\<in>set ws. isspace c) \<and> plain p1 \<and> takeWhile isspace p1 = [] \<longrightarrow>
      sanitize_input (p0 @ replicate h (CHR ''#'') @ ws @ p1) = take 500 (p0 @ p1)) \<and>
   (\<forall>s. CHR ''!'' \<notin> set s \<and> CHR ''*'' \<notin> set s \<and> CHR ''['' \<notin> set s \<and> CHR ''#'' \<notin> set s \<longrightarrow>
      sanitize_input s = take 500 (filter (\<lambda>c. c \<noteq> backtick) s))"
proof (intro conjI allI impI; (elim conjE)?)
  show "sanitize_input t =
     take MAX_INPUT_LENGTH
       (re_sub backtick_pattern None
          (re_sub heading_pattern None
             (re_sub link_pattern None
                (re_sub emphasis_pattern None
                   (re_sub image_pattern None t)))))"
    by (rule sanitize_input_passes)
  show "MAX_INPUT_LENGTH = 500"
    by (rule MAX_INPUT_LENGTH_def)
  show "length (sanitize_input t) \<le> 500"
    using sanitize_input_length[of t] by (simp add: MAX_INPUT_LENGTH_def)
  show "backtick \<notin> set (sanitize_input t)"
    by (rule sanitize_input_backtick_free)
qed ((rule sanitize_image[unfolded MAX_INPUT_LENGTH_def]
        sanitize_link[unfolded MAX_INPUT_LENGTH_def]
        sanitize_emphasis[unfolded MAX_INPUT_LENGTH_def]
        sanitize_heading[unfolded MAX_INPUT_LENGTH_def]
        sanitize_backticks[unfolded MAX_INPUT_LENGTH_def]; assumption)+)

theorem sanitize_input_strips_and_truncates_witness:
  "sanitize_input ''See ![alt](img) now'' = ''See alt now'' \<and>
   sanitize_input ''See [text](url) now'' = ''See text now'' \<and>
   sanitize_input ''very **bold** word'' = ''very bold word'' \<and>
   sanitize_input ''intro\<newline>## Title'' = ''intro\<newline>Title'' \<and>
   sanitize_input (''run '' @ [backtick] @ ''ls'' @ [backtick]) = ''run ls'' \<and>
   length (sanitize_input (replicate 600 (CHR ''a''))) \<le> 500 \<and>
   backtick \<notin> set (sanitize_input [backtick, CHR ''x'', backtick])"
proof -
  note T = sanitize_input_strips_and_truncates
  have pl: "plain ''See ''" "plain ''alt''" "plain ''img''" "plain '' now''" "plain ''text''"
    "plain ''url''" "plain ''very ''" "plain ''bold''" "plain '' word''" "plain ''intro\<newline>''"
    "plain ''Title''"
    by (simp_all add: plain_def backtick_def)
  have i: "sanitize_input (''See '' @ ''!['' @ ''alt'' @ '']('' @ ''img'' @ '')'' @ '' now'') =
      take 500 (''See '' @ ''alt'' @ '' now'')"
    by (rule T[THEN conjunct2, THEN conjunct2, THEN conjunct2, THEN conjunct2, THEN conjunct1,
          rule_format]) (simp add: pl)
  have l: "sanitize_input (''See '' @ ''['' @ ''text'' @ '']('' @ ''url'' @ '')'' @ '' now'') =
      take 500 (''See '' @ ''text'' @ '' now'')"
    by (rule T[THEN conjunct2, THEN conjunct2, THEN conjunct2, THEN conjunct2, THEN conjunct2,
          THEN conjunct1, rule_format]) (simp add: pl)
  have e: "sanitize_input (''very '' @ replicate 2 (CHR ''*'') @ ''bold'' @
        replicate 2 (CHR ''*'') @ '' word'') = take 500 (''very '' @ ''bold'' @ '' word'')"
    by (rule T[THEN conjunct2, THEN conjunct2, THEN conjunct2, THEN conjunct2, THEN conjunct2,
          THEN conjunct2, THEN conjunct1, rule_format])
      (simp add: pl newline_def)
  have h: "sanitize_input (''intro\<newline>'' @ replicate 2 (CHR ''#'') @ '' '' @ ''Title'') =
      take 500 (''intro\<newline>'' @ ''Title'')"
    by (rule T[THEN conjunct2, THEN conjunct2, THEN conjunct2, THEN conjunct2, THEN conjunct2,
          THEN conjunct2, THEN conjunct2, THEN conjunct1, rule_format])
      (simp add: pl isspace_def newline_def)
  have b: "sanitize_input (''run '' @ [backtick] @ ''ls'' @ [backtick]) =
      take 500 (filter (\<lambda>c. c \<noteq> backtick) (''run '' @ [backtick] @ ''ls'' @ [backtick]))"
    by (rule T[THEN conjunct2, THEN conjunct2, THEN conjunct2, THEN conjunct2, THEN conjunct2,
          THEN conjunct2, THEN conjunct2, THEN conjunct2, rule_format])
      (simp add: backtick_def)
  have n: "length (sanitize_input (replicate 600 (CHR ''a''))) \<le> 500"
    by (rule T[THEN conjunct2, THEN conjunct2, THEN conjunct1])
  have k: "backtick \<notin> set (sanitize_input [backtick, CHR ''x'', backtick])"
    by (rule T[THEN conjunct2, THEN conjunct2, THEN conjunct2, THEN conjunct1])
  have two: "replicate 2 c = [c, c]" for c :: char
    by (simp add: numeral_2_eq_2)
  show ?thesis
    using i l e h b n k by (simp add: two backtick_def)
qed

theorem sanitize_input_leaves_markdown:
  "sanitize_input (''[a]'' @ [backtick] @ ''(b)'') = ''[a](b)'' \<and>
   sanitize_input ([backtick] @ ''# Title'') = ''# Title''"
  by (simp add: sanitize_input_def Let_def image_pattern_def link_pattern_def
      emphasis_pattern_def heading_pattern_def backtick_pattern_def bracket_paren_def
      strip_prefix_def startswith_def stars_def backtick_def newline_def isspace_def
      MAX_INPUT_LENGTH_def)

end
